theory Spec2Isabelle
  imports Main "HOL-Library.Sublist"
begin

section \<open>Strings and paths\<close>

text \<open>
  JavaScript strings are modelled as \<open>string\<close> (lists of characters). \<open>toLowerCase\<close> is
  \<open>String.prototype.toLowerCase\<close> on ASCII text: the letters A to Z are mapped to a to z,
  every other character is kept. Names are taken to be ASCII: JavaScript also lowers
  letters outside ASCII, one of them (the Kelvin sign) to the ASCII letter k, and names
  with such letters are outside what is modelled.
\<close>

definition lowerChar :: "char \<Rightarrow> char" where
  "lowerChar c =
     (case map_of (zip ''ABCDEFGHIJKLMNOPQRSTUVWXYZ'' ''abcdefghijklmnopqrstuvwxyz'') c of
        Some d \<Rightarrow> d
      | None \<Rightarrow> c)"

definition toLowerCase :: "string \<Rightarrow> string" where
  "toLowerCase s = map lowerChar s"

text \<open>\<open>s.endsWith(suf)\<close>.\<close>

definition endsWith :: "string \<Rightarrow> string \<Rightarrow> bool" where
  "endsWith s suf = (length suf \<le> length s \<and> drop (length s - length suf) s = suf)"

text \<open>
  \<open>path.join\<close> and \<open>path.basename\<close> of Node, for the separator \<open>/\<close> and segments that
  are already normalised (non-empty, without \<open>.\<close> and \<open>..\<close> parts and without a trailing
  separator): joining puts one separator between the segments, the base name is what
  follows the last separator. Node drops an empty segment and collapses a doubled
  separator; on such arguments \<open>path_join\<close> is not \<open>path.join\<close>, and the predicate
  \<open>normalisedPaths\<close> below says which paths of an install are free of them.
\<close>

definition path_join :: "string \<Rightarrow> string \<Rightarrow> string" where
  "path_join a b = a @ ''/'' @ b"

definition basename :: "string \<Rightarrow> string" where
  "basename p = rev (takeWhile (\<lambda>c. c \<noteq> CHR ''/'') (rev p))"

section \<open>Errors\<close>

text \<open>
  \<open>R2Error(name, message, solution)\<close> and its subclass \<open>FileWriteError\<close>. A thrown
  JavaScript value is either a plain \<open>Error\<close> with its message or an \<open>R2Error\<close>
  (the \<open>instanceof R2Error\<close> tests of the installer tell them apart).
\<close>

datatype R2Error =
    R2Error string string string
  | FileWriteError string string string

datatype thrown = JsError string | ThrownR2 R2Error

fun message :: "thrown \<Rightarrow> string" where
  "message (JsError m) = m"
| "message (ThrownR2 (R2Error n m s)) = m"
| "message (ThrownR2 (FileWriteError n m s)) = m"

section \<open>The file system behind FsProvider\<close>

text \<open>
  Modelled from the spec: the file system that the installer reaches through \<open>FsProvider\<close>
  and \<open>FileUtils\<close>, neither of which is part of the source file. The spec lists the
  primitives the installer consumes: existence check, list-directory, single-file stat,
  delete-file, delete-directory of an empty directory, emptying a directory,
  ensure-directory-exists, copy-file, copy-directory-recursive and rename.

  The store maps absolute path strings to nodes. \<open>busy\<close> lists the paths that cannot be
  written at the moment (a file held open by the running game); \<open>calls\<close> records every
  call made to the provider, in order, with whether it returned normally.
\<close>

datatype node = FileNode string | DirNode

datatype fscall =
    Exists string
  | Readdir string
  | Lstat string
  | Unlink string
  | Rmdir string
  | EmptyDirectory string
  | EnsureDirectory string
  | CopyFile string string
  | CopyFolder string string
  | Rename string string

record world =
  store :: "(string \<times> node) list"
  busy :: "string list"
  calls :: "(fscall \<times> bool) list"

fun isFile :: "node \<Rightarrow> bool" where
  "isFile (FileNode c) = True"
| "isFile DirNode = False"

fun isDirectory :: "node \<Rightarrow> bool" where
  "isDirectory (FileNode c) = False"
| "isDirectory DirNode = True"

definition liesUnder :: "string \<Rightarrow> string \<Rightarrow> bool" where
  "liesUnder dir p = prefix (dir @ ''/'') p"

definition removeKeys :: "(string \<Rightarrow> bool) \<Rightarrow> (string \<times> node) list \<Rightarrow> (string \<times> node) list" where
  "removeKeys doomed s = filter (\<lambda>(k, n). \<not> doomed k) s"

definition put :: "string \<Rightarrow> node \<Rightarrow> (string \<times> node) list \<Rightarrow> (string \<times> node) list" where
  "put k n s = (if k \<in> fst ` set s then map (\<lambda>(k', n'). if k' = k then (k, n) else (k', n')) s
                else s @ [(k, n)])"

definition ancestors :: "string \<Rightarrow> string list" where
  "ancestors p = [take i p. i \<leftarrow> [1..<length p], p ! i = CHR ''/'']"

definition dirname :: "string \<Rightarrow> string" where
  "dirname p = take (length p - length (basename p) - 1) p"

definition fileAt :: "(string \<times> node) list \<Rightarrow> string \<Rightarrow> bool" where
  "fileAt s p = (case map_of s p of Some n \<Rightarrow> isFile n | None \<Rightarrow> False)"

definition returned :: "thrown + 'a \<Rightarrow> bool" where
  "returned r = (case r of Inl e \<Rightarrow> False | Inr v \<Rightarrow> True)"

definition fscalled ::
  "fscall \<Rightarrow> thrown + 'a \<Rightarrow> (string \<times> node) list \<Rightarrow> world \<Rightarrow> (thrown + 'a) \<times> world" where
  "fscalled c r s w = (r, w\<lparr>store := s, calls := calls w @ [(c, returned r)]\<rparr>)"

text \<open>
  Modelled from the spec: the primitives themselves. Each one returns a value or throws,
  records the call, and leaves the store as the call left it; the existence check answers
  and never throws. A call throws when the path it writes is busy or when the store does
  not hold what the call needs (no such file, not a directory, directory not empty).
\<close>

definition exists :: "string \<Rightarrow> world \<Rightarrow> bool \<times> world" where
  "exists p w = (map_of (store w) p \<noteq> None, w\<lparr>calls := calls w @ [(Exists p, True)]\<rparr>)"

definition childName :: "string \<Rightarrow> string \<Rightarrow> string option" where
  "childName dir k =
     (if liesUnder dir k \<and> CHR ''/'' \<notin> set (drop (length dir + 1) k)
      then Some (drop (length dir + 1) k) else None)"

definition readdir :: "string \<Rightarrow> world \<Rightarrow> (thrown + string list) \<times> world" where
  "readdir p w =
     fscalled (Readdir p)
       (if map_of (store w) p = Some DirNode
        then Inr (List.map_filter (\<lambda>(k, n). childName p k) (store w))
        else Inl (JsError ''ENOENT: no such directory''))
       (store w) w"

definition lstat :: "string \<Rightarrow> world \<Rightarrow> (thrown + node) \<times> world" where
  "lstat p w =
     fscalled (Lstat p)
       (case map_of (store w) p of
          None \<Rightarrow> Inl (JsError ''ENOENT: no such file or directory'')
        | Some n \<Rightarrow> Inr n)
       (store w) w"

definition unlink :: "string \<Rightarrow> world \<Rightarrow> (thrown + unit) \<times> world" where
  "unlink p w =
     (if p \<in> set (busy w) then fscalled (Unlink p) (Inl (JsError ''EBUSY: resource busy or locked'')) (store w) w
      else case map_of (store w) p of
          Some (FileNode c) \<Rightarrow> fscalled (Unlink p) (Inr ()) (removeKeys (\<lambda>k. k = p) (store w)) w
        | Some DirNode \<Rightarrow> fscalled (Unlink p) (Inl (JsError ''EISDIR: is a directory'')) (store w) w
        | None \<Rightarrow> fscalled (Unlink p) (Inl (JsError ''ENOENT: no such file or directory'')) (store w) w)"

definition rmdir :: "string \<Rightarrow> world \<Rightarrow> (thrown + unit) \<times> world" where
  "rmdir p w =
     (if p \<in> set (busy w) then fscalled (Rmdir p) (Inl (JsError ''EBUSY: resource busy or locked'')) (store w) w
      else if map_of (store w) p \<noteq> Some DirNode
        then fscalled (Rmdir p) (Inl (JsError ''ENOENT: no such directory'')) (store w) w
      else if \<exists>k \<in> fst ` set (store w). liesUnder p k
        then fscalled (Rmdir p) (Inl (JsError ''ENOTEMPTY: directory not empty'')) (store w) w
      else fscalled (Rmdir p) (Inr ()) (removeKeys (\<lambda>k. k = p) (store w)) w)"

text \<open>
  Modelled from the spec: \<open>FileUtils.emptyDirectory\<close>, which deletes what lies below the
  directory, entry by entry, and stops at the first entry it cannot delete.
\<close>

definition emptyDirectory :: "string \<Rightarrow> world \<Rightarrow> (thrown + unit) \<times> world" where
  "emptyDirectory p w =
     (if map_of (store w) p \<noteq> Some DirNode
        then fscalled (EmptyDirectory p) (Inl (JsError ''ENOENT: no such directory'')) (store w) w
      else
        let below = filter (liesUnder p) (map fst (store w));
            doomed = takeWhile (\<lambda>k. k \<notin> set (busy w)) below
        in fscalled (EmptyDirectory p)
             (if length doomed = length below then Inr ()
              else Inl (JsError ''EBUSY: resource busy or locked''))
             (removeKeys (\<lambda>k. k \<in> set doomed) (store w)) w)"

definition ensureDirectory :: "string \<Rightarrow> world \<Rightarrow> (thrown + unit) \<times> world" where
  "ensureDirectory p w =
     (if p \<in> set (busy w)
        then fscalled (EnsureDirectory p) (Inl (JsError ''EPERM: operation not permitted'')) (store w) w
      else if \<exists>d \<in> set (ancestors p @ [p]). fileAt (store w) d
        then fscalled (EnsureDirectory p) (Inl (JsError ''EEXIST: file already exists'')) (store w) w
      else fscalled (EnsureDirectory p) (Inr ())
             (store w @ [(d, DirNode). d \<leftarrow> ancestors p @ [p], map_of (store w) d = None]) w)"

definition copyFile :: "string \<Rightarrow> string \<Rightarrow> world \<Rightarrow> (thrown + unit) \<times> world" where
  "copyFile src dst w =
     (if dst \<in> set (busy w)
        then fscalled (CopyFile src dst) (Inl (JsError ''EBUSY: resource busy or locked'')) (store w) w
      else case map_of (store w) src of
          Some (FileNode c) \<Rightarrow>
            (if map_of (store w) (dirname dst) = Some DirNode \<and> map_of (store w) dst \<noteq> Some DirNode
             then fscalled (CopyFile src dst) (Inr ()) (put dst (FileNode c) (store w)) w
             else fscalled (CopyFile src dst) (Inl (JsError ''ENOENT: no such file or directory'')) (store w) w)
        | Some DirNode \<Rightarrow> fscalled (CopyFile src dst) (Inl (JsError ''EISDIR: is a directory'')) (store w) w
        | None \<Rightarrow> fscalled (CopyFile src dst) (Inl (JsError ''ENOENT: no such file or directory'')) (store w) w)"

definition copyFolder :: "string \<Rightarrow> string \<Rightarrow> world \<Rightarrow> (thrown + unit) \<times> world" where
  "copyFolder src dst w =
     (if dst \<in> set (busy w)
        then fscalled (CopyFolder src dst) (Inl (JsError ''EBUSY: resource busy or locked'')) (store w) w
      else if map_of (store w) src \<noteq> Some DirNode \<or> fileAt (store w) dst
        then fscalled (CopyFolder src dst) (Inl (JsError ''ENOENT: no such directory'')) (store w) w
      else fscalled (CopyFolder src dst) (Inr ())
             (foldl (\<lambda>s (k, n). put (dst @ drop (length src) k) n s)
                    (put dst DirNode (store w))
                    (filter (\<lambda>(k, n). liesUnder src k) (store w))) w)"

definition rename :: "string \<Rightarrow> string \<Rightarrow> world \<Rightarrow> (thrown + unit) \<times> world" where
  "rename src dst w =
     (if src \<in> set (busy w) \<or> dst \<in> set (busy w)
        then fscalled (Rename src dst) (Inl (JsError ''EBUSY: resource busy or locked'')) (store w) w
      else if map_of (store w) src = None
        then fscalled (Rename src dst) (Inl (JsError ''ENOENT: no such file or directory'')) (store w) w
      else fscalled (Rename src dst) (Inr ())
             (map (\<lambda>(k, n). if k = src then (dst, n)
                             else if liesUnder src k then (dst @ drop (length src) k, n)
                             else (k, n))
                  (removeKeys (\<lambda>k. k = dst \<or> liesUnder dst k) (store w))) w)"

section \<open>The data the installer works on\<close>

text \<open>
  \<open>FileTree\<close>: the name of the directory, the absolute paths of the files directly in
  it, and the trees of its subdirectories, as \<open>getDirectoryName\<close>, \<open>getFiles\<close> and
  \<open>getDirectories\<close> return them.
\<close>

datatype FileTree =
  FileTree (getDirectoryName: string) (getFiles: "string list") (getDirectories: "FileTree list")

text \<open>
  Modelled from the spec: \<open>FileTree.getRecursiveFiles\<close>, the recursive flattening that
  produces every file path at or below a node (the class is not part of the source file).
\<close>

fun getRecursiveFiles :: "FileTree \<Rightarrow> string list" where
  "getRecursiveFiles (FileTree name files dirs) = files @ concat (map getRecursiveFiles dirs)"

text \<open>
  Of a mod, the functions below read the name only. Their parameter \<open>mod\<close> is written
  \<open>md\<close> here, \<open>mod\<close> being the remainder operator of HOL.
\<close>

record ManifestV2 =
  getName :: string

record Profile =
  getPathOfProfile :: string

record RuleType =
  defaultPath :: string
  rules :: "(string \<times> string) list"

record ModLoaderPackageMapping =
  packageName :: string
  rootFolder :: string

datatype ModMode = DISABLED | ENABLED

text \<open>
  What an installer instance reads besides its arguments: its rule set, the entry of
  \<open>MOD_LOADER_VARIANTS\<close> for the active game, \<open>ManagerInformation.APP_NAME\<close>, and the text
  a template string prints for a \<open>ModMode\<close> value.
\<close>

record installer =
  rule :: RuleType
  bepInExVariant :: "ModLoaderPackageMapping list"
  APP_NAME :: string
  modeText :: "ModMode \<Rightarrow> string"

definition modModeExtensions :: "string list" where
  "modModeExtensions = [''.dll'', ''.language'', ''skin.cfg'', ''.hotmod'', ''.h3mod'', ''.deli'', ''.ros'']"

section \<open>uninstallMod\<close>

text \<open>\<open>bepInExVariant.find(value => value.packageName.toLowerCase() === mod.getName().toLowerCase())\<close>\<close>

definition findVariant :: "installer \<Rightarrow> ManifestV2 \<Rightarrow> ModLoaderPackageMapping option" where
  "findVariant ctx md =
     find (\<lambda>v. toLowerCase (packageName v) = toLowerCase (getName md)) (bepInExVariant ctx)"

text \<open>The loop over the entries of the profile root (lines 45 to 52).\<close>

fun deleteRootFiles :: "string \<Rightarrow> string list \<Rightarrow> world \<Rightarrow> (thrown + unit) \<times> world" where
  "deleteRootFiles root [] w = (Inr (), w)"
| "deleteRootFiles root (file # rest) w =
     (let filePath = path_join root file in
      case lstat filePath w of
        (Inl e, w1) \<Rightarrow> (Inl e, w1)
      | (Inr st, w1) \<Rightarrow>
          if isFile st then
            if toLowerCase file \<noteq> ''mods.yml'' then
              (case unlink filePath w1 of
                 (Inl e, w2) \<Rightarrow> (Inl e, w2)
               | (Inr u, w2) \<Rightarrow> deleteRootFiles root rest w2)
            else deleteRootFiles root rest w1
          else deleteRootFiles root rest w1)"

text \<open>The first block of \<open>uninstallMod\<close> (lines 43 to 61): the loader-root pass.\<close>

definition loaderRootPass :: "installer \<Rightarrow> ManifestV2 \<Rightarrow> Profile \<Rightarrow> world \<Rightarrow> R2Error option \<times> world" where
  "loaderRootPass ctx md profile w =
     (if findVariant ctx md \<noteq> None then
        (case readdir (getPathOfProfile profile) w of
           (Inl e, w1) \<Rightarrow>
             (Some (FileWriteError ''Failed to delete BepInEx file from profile root'' (message e)
                      ''Is the game still running?''), w1)
         | (Inr names, w1) \<Rightarrow>
             (case deleteRootFiles (getPathOfProfile profile) names w1 of
                (Inl e, w2) \<Rightarrow>
                  (Some (FileWriteError ''Failed to delete BepInEx file from profile root'' (message e)
                           ''Is the game still running?''), w2)
              | (Inr u, w2) \<Rightarrow> (None, w2)))
      else (None, w))"

text \<open>The inner loop over the entries of one directory below BepInEx (lines 67 to 73).\<close>

fun removeModFolders :: "ManifestV2 \<Rightarrow> string \<Rightarrow> string list \<Rightarrow> world \<Rightarrow> (thrown + unit) \<times> world" where
  "removeModFolders md dir [] w = (Inr (), w)"
| "removeModFolders md dir (folder # rest) w =
     (let folderPath = path_join dir folder in
      if folder = getName md then
        (case lstat folderPath w of
           (Inl e, w1) \<Rightarrow> (Inl e, w1)
         | (Inr st, w1) \<Rightarrow>
             if isDirectory st then
               (case emptyDirectory folderPath w1 of
                  (Inl e, w2) \<Rightarrow> (Inl e, w2)
                | (Inr u, w2) \<Rightarrow>
                    (case rmdir folderPath w2 of
                       (Inl e, w3) \<Rightarrow> (Inl e, w3)
                     | (Inr u', w3) \<Rightarrow> removeModFolders md dir rest w3))
             else removeModFolders md dir rest w1)
      else removeModFolders md dir rest w)"

text \<open>The outer loop over the entries of BepInEx (lines 65 to 75).\<close>

fun removeFromManagedFolders :: "ManifestV2 \<Rightarrow> string \<Rightarrow> string list \<Rightarrow> world \<Rightarrow> (thrown + unit) \<times> world" where
  "removeFromManagedFolders md bepInExLocation [] w = (Inr (), w)"
| "removeFromManagedFolders md bepInExLocation (file # rest) w =
     (case lstat (path_join bepInExLocation file) w of
        (Inl e, w1) \<Rightarrow> (Inl e, w1)
      | (Inr st, w1) \<Rightarrow>
          if isDirectory st then
            (case readdir (path_join bepInExLocation file) w1 of
               (Inl e, w2) \<Rightarrow> (Inl e, w2)
             | (Inr folders, w2) \<Rightarrow>
                 (case removeModFolders md (path_join bepInExLocation file) folders w2 of
                    (Inl e, w3) \<Rightarrow> (Inl e, w3)
                  | (Inr u, w3) \<Rightarrow> removeFromManagedFolders md bepInExLocation rest w3))
          else removeFromManagedFolders md bepInExLocation rest w1)"

text \<open>The second block of \<open>uninstallMod\<close> (lines 62 to 84): the managed-subfolder pass.\<close>

definition managedSubfolderPass :: "ManifestV2 \<Rightarrow> Profile \<Rightarrow> world \<Rightarrow> R2Error option \<times> world" where
  "managedSubfolderPass md profile w =
     (let bepInExLocation = path_join (getPathOfProfile profile) ''BepInEx'' in
      case exists bepInExLocation w of
        (present, w1) \<Rightarrow>
          if present then
            (case readdir bepInExLocation w1 of
               (Inl e, w2) \<Rightarrow>
                 (Some (R2Error ''Failed to remove files'' (message e)
                          ''Is the game still running? If so, close it and try again.''), w2)
             | (Inr names, w2) \<Rightarrow>
                 (case removeFromManagedFolders md bepInExLocation names w2 of
                    (Inl e, w3) \<Rightarrow>
                      (Some (R2Error ''Failed to remove files'' (message e)
                               ''Is the game still running? If so, close it and try again.''), w3)
                  | (Inr u, w3) \<Rightarrow> (None, w3)))
          else (None, w1))"

definition uninstallMod :: "installer \<Rightarrow> ManifestV2 \<Rightarrow> Profile \<Rightarrow> world \<Rightarrow> R2Error option \<times> world" where
  "uninstallMod ctx md profile w =
     (case loaderRootPass ctx md profile w of
        (Some err, w1) \<Rightarrow> (Some err, w1)
      | (None, w1) \<Rightarrow> managedSubfolderPass md profile w1)"

section \<open>applyModMode\<close>

text \<open>
  The rename calls that the body of the loop over the files makes for one file, in the
  order of \<open>modModeExtensions\<close>: \<open>rename(file, file + '.old')\<close> for every extension the
  lower-cased file ends with when disabling, \<open>rename(file, file.substring(0, file.length -
  ('.old').length))\<close> for every extension that it ends with, followed by \<open>.old\<close>, when
  enabling.
\<close>

definition modeRenames :: "ModMode \<Rightarrow> string \<Rightarrow> (string \<times> string) list" where
  "modeRenames mode file =
     (case mode of
        DISABLED \<Rightarrow>
          [(file, file @ ''.old''). ext \<leftarrow> modModeExtensions, endsWith (toLowerCase file) ext]
      | ENABLED \<Rightarrow>
          [(file, take (length file - length ''.old'') file).
             ext \<leftarrow> modModeExtensions, endsWith (toLowerCase file) (ext @ ''.old'')])"

fun renameAll :: "(string \<times> string) list \<Rightarrow> world \<Rightarrow> (thrown + unit) \<times> world" where
  "renameAll [] w = (Inr (), w)"
| "renameAll ((src, dst) # rest) w =
     (case rename src dst w of
        (Inl e, w1) \<Rightarrow> (Inl e, w1)
      | (Inr u, w1) \<Rightarrow> renameAll rest w1)"

text \<open>The body of the loop over the files, with its \<open>try\<close> and \<open>catch\<close> (lines 119 to 140).\<close>

definition applyModeToFile :: "installer \<Rightarrow> ModMode \<Rightarrow> string \<Rightarrow> world \<Rightarrow> R2Error option \<times> world" where
  "applyModeToFile ctx mode file w =
     (case renameAll (modeRenames mode file) w of
        (Inl e, w1) \<Rightarrow>
          (Some (R2Error (''Failed to rename file '' @ file @ '' with ModMode of '' @ modeText ctx mode)
                   (message e) ''Ensure that the game is closed.''), w1)
      | (Inr u, w1) \<Rightarrow> (None, w1))"

text \<open>The loop over the collected files (lines 118 to 141).\<close>

fun applyModeToFiles :: "installer \<Rightarrow> ModMode \<Rightarrow> string list \<Rightarrow> world \<Rightarrow> R2Error option \<times> world" where
  "applyModeToFiles ctx mode [] w = (None, w)"
| "applyModeToFiles ctx mode (file # rest) w =
     (case applyModeToFile ctx mode file w of
        (Some err, w1) \<Rightarrow> (Some err, w1)
      | (None, w1) \<Rightarrow> applyModeToFiles ctx mode rest w1)"

text \<open>
  \<open>applyModMode\<close>, and the loop over the directories of the tree (lines 108 to 117), which
  recurses into the directories not named as the mod and collects the files of those that
  are.
\<close>

fun applyModMode ::
    "installer \<Rightarrow> ManifestV2 \<Rightarrow> FileTree \<Rightarrow> Profile \<Rightarrow> string \<Rightarrow> ModMode \<Rightarrow> world \<Rightarrow> R2Error option \<times> world"
  and applyModModeDirectories ::
    "installer \<Rightarrow> ManifestV2 \<Rightarrow> FileTree list \<Rightarrow> Profile \<Rightarrow> string \<Rightarrow> ModMode \<Rightarrow> string list \<Rightarrow> world
       \<Rightarrow> (R2Error + string list) \<times> world"
where
  "applyModMode ctx md (FileTree name treeFiles dirs) profile location mode w =
     (case applyModModeDirectories ctx md dirs profile location mode [] w of
        (Inl err, w1) \<Rightarrow> (Some err, w1)
      | (Inr files, w1) \<Rightarrow> applyModeToFiles ctx mode files w1)"
| "applyModModeDirectories ctx md [] profile location mode files w = (Inr files, w)"
| "applyModModeDirectories ctx md (directory # rest) profile location mode files w =
     (if getDirectoryName directory \<noteq> getName md then
        (case applyModMode ctx md directory profile
                (path_join location (getDirectoryName directory)) mode w of
           (Some err, w1) \<Rightarrow> (Inl err, w1)
         | (None, w1) \<Rightarrow> applyModModeDirectories ctx md rest profile location mode files w1)
      else applyModModeDirectories ctx md rest profile location mode
             (files @ getRecursiveFiles directory) w)"

section \<open>resolveBepInExTree\<close>

text \<open>
  \<open>Object.keys(this.rule.rules).find(folder => folder.toLowerCase() ===
  folderName.toLowerCase())\<close> together with the lookup \<open>this.rule.rules[matchingEndFolderName]\<close>:
  the first entry of the rule table whose key matches, with its destination.
\<close>

definition matchingEndFolderName :: "RuleType \<Rightarrow> string \<Rightarrow> (string \<times> string) option" where
  "matchingEndFolderName r folderName =
     find (\<lambda>(folder, destination). toLowerCase folder = toLowerCase folderName) (rules r)"

text \<open>The branch for a folder that matches a rule (lines 178 to 210).\<close>

definition endFolderLocation :: "Profile \<Rightarrow> string \<Rightarrow> ManifestV2 \<Rightarrow> string \<Rightarrow> string" where
  "endFolderLocation profile folderName md destination =
     (if toLowerCase folderName \<noteq> ''config''
      then path_join (path_join (getPathOfProfile profile) destination) (getName md)
      else path_join (getPathOfProfile profile) destination)"

definition resolveEndFolder ::
    "installer \<Rightarrow> Profile \<Rightarrow> string \<Rightarrow> string \<Rightarrow> ManifestV2 \<Rightarrow> string \<Rightarrow> world \<Rightarrow> R2Error option \<times> world" where
  "resolveEndFolder ctx profile location folderName md destination w =
     (let profileLocation = endFolderLocation profile folderName md destination in
      case ensureDirectory profileLocation w of
        (Inl e, w1) \<Rightarrow>
          (Some (FileWriteError (''Failed to create directories for: '' @ profileLocation) (message e)
                   (''Is the game still running? If not, try running '' @ APP_NAME ctx @ '' as an administrator'')),
           w1)
      | (Inr u, w1) \<Rightarrow>
          (case copyFolder location profileLocation w1 of
             (Inl e, w2) \<Rightarrow>
               (Some (FileWriteError
                        (''Failed to move mod: '' @ getName md @ '' with directory of: '' @ profileLocation)
                        (message e)
                        (''Is the game still running? If not, try running '' @ APP_NAME ctx @ '' as an administrator'')),
                w2)
           | (Inr u', w2) \<Rightarrow> (None, w2)))"

text \<open>
  The body of the loop over the files of an unmatched folder (lines 213 to 250). The text
  of the error message joins the location with the absolute path of the file, as the
  source does.
\<close>

definition fileLocation :: "installer \<Rightarrow> Profile \<Rightarrow> ManifestV2 \<Rightarrow> string \<Rightarrow> string" where
  "fileLocation ctx profile md file =
     (if endsWith (toLowerCase file) ''.mm.dll''
      then path_join (path_join (path_join (getPathOfProfile profile) ''BepInEx'') ''monomod'') (getName md)
      else path_join (path_join (getPathOfProfile profile) (defaultPath (rule ctx))) (getName md))"

definition resolveFile ::
    "installer \<Rightarrow> Profile \<Rightarrow> string \<Rightarrow> ManifestV2 \<Rightarrow> string \<Rightarrow> world \<Rightarrow> R2Error option \<times> world" where
  "resolveFile ctx profile location md file w =
     (let profileLocation = fileLocation ctx profile md file in
      case ensureDirectory profileLocation w of
        (Inl e, w1) \<Rightarrow>
          (Some (case e of
                   ThrownR2 r \<Rightarrow> r
                 | JsError m \<Rightarrow>
                     FileWriteError (''Failed to create directories for: '' @ profileLocation) m
                       (''Try running '' @ APP_NAME ctx @ '' as an administrator'')),
           w1)
      | (Inr u, w1) \<Rightarrow>
          (case copyFile file (path_join profileLocation (basename file)) w1 of
             (Inl e, w2) \<Rightarrow>
               (Some (case e of
                        ThrownR2 r \<Rightarrow> r
                      | JsError m \<Rightarrow>
                          FileWriteError
                            (''Failed to move mod: '' @ getName md @ '' with file: '' @ path_join location file) m
                            (''Is the game still running? If not, try running '' @ APP_NAME ctx @ '' as an administrator'')),
                w2)
           | (Inr u', w2) \<Rightarrow> (None, w2)))"

text \<open>The loop over the files of an unmatched folder (lines 212 to 251).\<close>

fun resolveFiles ::
    "installer \<Rightarrow> Profile \<Rightarrow> string \<Rightarrow> ManifestV2 \<Rightarrow> string list \<Rightarrow> world \<Rightarrow> R2Error option \<times> world" where
  "resolveFiles ctx profile location md [] w = (None, w)"
| "resolveFiles ctx profile location md (file # rest) w =
     (case resolveFile ctx profile location md file w of
        (Some err, w1) \<Rightarrow> (Some err, w1)
      | (None, w1) \<Rightarrow> resolveFiles ctx profile location md rest w1)"

text \<open>\<open>resolveBepInExTree\<close>, and its loop over the subdirectories (lines 253 to 265).\<close>

fun resolveBepInExTree ::
    "installer \<Rightarrow> Profile \<Rightarrow> string \<Rightarrow> string \<Rightarrow> ManifestV2 \<Rightarrow> FileTree \<Rightarrow> world \<Rightarrow> R2Error option \<times> world"
  and resolveDirectories ::
    "installer \<Rightarrow> Profile \<Rightarrow> string \<Rightarrow> ManifestV2 \<Rightarrow> FileTree list \<Rightarrow> world \<Rightarrow> R2Error option \<times> world"
where
  "resolveBepInExTree ctx profile location folderName md (FileTree name files dirs) w =
     (case matchingEndFolderName (rule ctx) folderName of
        Some (folder, destination) \<Rightarrow> resolveEndFolder ctx profile location folderName md destination w
      | None \<Rightarrow>
          (case resolveFiles ctx profile location md files w of
             (Some err, w1) \<Rightarrow> (Some err, w1)
           | (None, w1) \<Rightarrow> resolveDirectories ctx profile location md dirs w1))"
| "resolveDirectories ctx profile location md [] w = (None, w)"
| "resolveDirectories ctx profile location md (directory # rest) w =
     (case resolveBepInExTree ctx profile (path_join location (getDirectoryName directory))
             (getDirectoryName directory) md directory w of
        (Some err, w1) \<Rightarrow> (Some err, w1)
      | (None, w1) \<Rightarrow> resolveDirectories ctx profile location md rest w1)"

section \<open>What the properties are stated with\<close>

text \<open>
  The calls a run added to the record, and what it means for them to stop at the first
  failure: either the run reports no error and every call returned, or it reports an
  error, the last call it made is the one that threw, and every call before it returned.
\<close>

definition newCalls :: "world \<Rightarrow> world \<Rightarrow> (fscall \<times> bool) list" where
  "newCalls w w' = drop (length (calls w)) (calls w')"

definition failFast :: "bool \<Rightarrow> (fscall \<times> bool) list \<Rightarrow> bool" where
  "failFast ok cs =
     (if ok then list_all snd cs
      else cs \<noteq> [] \<and> list_all snd (butlast cs) \<and> \<not> snd (last cs))"

definition failFastRun :: "world \<Rightarrow> world \<Rightarrow> bool \<Rightarrow> bool" where
  "failFastRun w w' ok = (calls w' = calls w @ newCalls w w' \<and> failFast ok (newCalls w w'))"

text \<open>
  A copy call covers a path when it copies what is at that path: a file copy covers its
  source, a folder copy covers its source directory and everything below it. \<open>copiesOf\<close>
  counts the recorded calls that cover a path.
\<close>

definition within :: "string \<Rightarrow> string \<Rightarrow> bool" where
  "within dir p = (p = dir \<or> liesUnder dir p)"

fun covers :: "fscall \<Rightarrow> string \<Rightarrow> bool" where
  "covers (CopyFile src dst) p = (p = src)"
| "covers (CopyFolder src dst) p = within src p"
| "covers c p = False"

definition copiesOf :: "(fscall \<times> bool) list \<Rightarrow> string \<Rightarrow> nat" where
  "copiesOf cs p = length (filter (\<lambda>(c, ok). covers c p) cs)"

text \<open>
  Modelled from the spec: what \<open>FileTree.buildFromLocation\<close> returns for a location (the
  class is not part of the source file). The tree is a snapshot of one directory: its
  files are the paths of the entries directly in the location, each once; its
  subdirectories have names without a separator that are unique among siblings and are
  not names of files; and every subdirectory is the snapshot of the location joined with
  its name.
\<close>

fun builtFrom :: "string \<Rightarrow> FileTree \<Rightarrow> bool" where
  "builtFrom location (FileTree name files dirs) =
     (distinct files \<and> distinct (map getDirectoryName dirs)
      \<and> (\<forall>f \<in> set files. childName location f \<noteq> None)
      \<and> (\<forall>d \<in> set dirs. CHR ''/'' \<notin> set (getDirectoryName d)
            \<and> path_join location (getDirectoryName d) \<notin> set files
            \<and> builtFrom (path_join location (getDirectoryName d)) d))"

text \<open>Every directory of a tree, the root included, with its location and its name.\<close>

fun treeDirectories :: "string \<Rightarrow> string \<Rightarrow> FileTree \<Rightarrow> (string \<times> string) list" where
  "treeDirectories location folderName (FileTree name files dirs) =
     (location, folderName)
       # concat (map (\<lambda>d. treeDirectories (path_join location (getDirectoryName d)) (getDirectoryName d) d) dirs)"

text \<open>
  The folders a run of \<open>resolveBepInExTree\<close> reaches when no call fails, each with the
  location, the folder name and the tree the function is called with, in the order of the
  calls: the folder at hand, and, only when its name matches no rule key, what is reached
  from each of its subdirectories, called as the source does with the location joined with
  the subdirectory's name, and that name. Nothing below a folder whose name matches a
  rule key is reached.
\<close>

fun visits :: "RuleType \<Rightarrow> string \<Rightarrow> string \<Rightarrow> FileTree \<Rightarrow> (string \<times> string \<times> FileTree) list" where
  "visits r location folderName (FileTree name files dirs) =
     (location, folderName, FileTree name files dirs)
       # (case matchingEndFolderName r folderName of
            Some m \<Rightarrow> []
          | None \<Rightarrow>
              concat (map (\<lambda>d. visits r (path_join location (getDirectoryName d)) (getDirectoryName d) d) dirs))"

text \<open>
  The calls of a run of \<open>resolveBepInExTree\<close> in which no call fails, written down from the
  words of the spec (a matched folder is one folder copy; an unmatched folder places its
  files one by one and then resolves its subdirectories), to be compared with the calls
  the function makes.
\<close>

fun plannedCalls :: "installer \<Rightarrow> Profile \<Rightarrow> string \<Rightarrow> string \<Rightarrow> ManifestV2 \<Rightarrow> FileTree \<Rightarrow> fscall list" where
  "plannedCalls ctx profile location folderName md (FileTree name files dirs) =
     (case matchingEndFolderName (rule ctx) folderName of
        Some (folder, destination) \<Rightarrow>
          [EnsureDirectory (endFolderLocation profile folderName md destination),
           CopyFolder location (endFolderLocation profile folderName md destination)]
      | None \<Rightarrow>
          concat (map (\<lambda>f. [EnsureDirectory (fileLocation ctx profile md f),
                             CopyFile f (path_join (fileLocation ctx profile md f) (basename f))]) files)
          @ concat (map (\<lambda>d. plannedCalls ctx profile (path_join location (getDirectoryName d))
                                 (getDirectoryName d) md d) dirs))"

definition succeeded :: "fscall list \<Rightarrow> (fscall \<times> bool) list" where
  "succeeded cs = map (\<lambda>c. (c, True)) cs"

text \<open>
  The paths on which \<open>path_join\<close> is \<open>path.join\<close> of Node: the profile path is absolute, and
  it, the mod's name, the default path and every destination of a rule consist of
  segments none of which is empty, \<open>.\<close> or \<open>..\<close> (so there is no doubled or trailing
  separator, and none of them is empty). Where Node would normalise a path, the
  destinations of the theorems on installing are not claimed.
\<close>

fun pathSegments :: "string \<Rightarrow> string list" where
  "pathSegments [] = [[]]"
| "pathSegments (c # cs) =
     (if c = CHR ''/'' then [] # pathSegments cs
      else (case pathSegments cs of [] \<Rightarrow> [[c]] | s # ss \<Rightarrow> (c # s) # ss))"

definition normalised :: "string \<Rightarrow> bool" where
  "normalised p = list_all (\<lambda>s. s \<noteq> [] \<and> s \<noteq> ''.'' \<and> s \<noteq> ''..'') (pathSegments p)"

definition normalisedPaths :: "installer \<Rightarrow> Profile \<Rightarrow> ManifestV2 \<Rightarrow> bool" where
  "normalisedPaths ctx profile md =
     (take 1 (getPathOfProfile profile) = ''/'' \<and> normalised (drop 1 (getPathOfProfile profile))
      \<and> normalised (getName md) \<and> normalised (defaultPath (rule ctx))
      \<and> list_all (\<lambda>(folder, destination). normalised destination) (rules (rule ctx)))"

section \<open>Example inputs\<close>

text \<open>
  A rule set, a profile and a profile directory on which the theorems below are
  instantiated: a loader pack is registered for the game, the profile holds the loader's
  files at its root and one installed mod, \<open>Foo\<close>.
\<close>

definition exampleInstaller :: installer where
  "exampleInstaller =
     \<lparr>rule = \<lparr>defaultPath = ''BepInEx/plugins'',
              rules = [(''plugins'', ''BepInEx/plugins''), (''config'', ''BepInEx/config'')]\<rparr>,
      bepInExVariant = [\<lparr>packageName = ''BepInExPack'', rootFolder = ''BepInExPack''\<rparr>],
      APP_NAME = ''r2modman'',
      modeText = (\<lambda>mode. case mode of DISABLED \<Rightarrow> ''0'' | ENABLED \<Rightarrow> ''1'')\<rparr>"

definition exampleProfile :: Profile where
  "exampleProfile = \<lparr>getPathOfProfile = ''/p''\<rparr>"

definition exampleMod :: ManifestV2 where
  "exampleMod = \<lparr>getName = ''Foo''\<rparr>"

definition exampleLoader :: ManifestV2 where
  "exampleLoader = \<lparr>getName = ''bepinexpack''\<rparr>"

definition exampleWorld :: world where
  "exampleWorld =
     \<lparr>store = [(''/p'', DirNode), (''/p/mods.yml'', FileNode ''m''), (''/p/MODS.YML'', FileNode ''M''),
               (''/p/doorstop.ini'', FileNode ''d''), (''/p/BepInEx'', DirNode),
               (''/p/BepInEx/plugins'', DirNode), (''/p/BepInEx/plugins/Foo'', DirNode),
               (''/p/BepInEx/plugins/Foo/Foo.dll'', FileNode ''x'')],
      busy = [], calls = []\<rparr>"

definition exampleLowerMod :: ManifestV2 where
  "exampleLowerMod = \<lparr>getName = ''foo''\<rparr>"

text \<open>The tree of \<open>/p/BepInEx\<close> in \<open>exampleWorld\<close>.\<close>

definition exampleInstalledTree :: FileTree where
  "exampleInstalledTree =
     FileTree ''BepInEx'' []
       [FileTree ''plugins'' [] [FileTree ''Foo'' [''/p/BepInEx/plugins/Foo/Foo.dll''] []]]"

text \<open>
  A cache that holds version 1.0.0 of the mod \<open>Foo\<close> beside an empty profile, and the
  tree of the cached package.
\<close>

definition exampleCacheWorld :: world where
  "exampleCacheWorld =
     \<lparr>store = [(''/p'', DirNode), (''/c'', DirNode), (''/c/Foo'', DirNode), (''/c/Foo/1.0.0'', DirNode),
               (''/c/Foo/1.0.0/a.mm.dll'', FileNode ''a''), (''/c/Foo/1.0.0/b.txt'', FileNode ''b''),
               (''/c/Foo/1.0.0/Config'', DirNode), (''/c/Foo/1.0.0/Config/foo.cfg'', FileNode ''c''),
               (''/c/Foo/1.0.0/x'', DirNode), (''/c/Foo/1.0.0/x/PLUGINS'', DirNode),
               (''/c/Foo/1.0.0/x/PLUGINS/Foo.dll'', FileNode ''d'')],
      busy = [], calls = []\<rparr>"

definition exampleTree :: FileTree where
  "exampleTree =
     FileTree ''1.0.0'' [''/c/Foo/1.0.0/a.mm.dll'', ''/c/Foo/1.0.0/b.txt'']
       [FileTree ''Config'' [''/c/Foo/1.0.0/Config/foo.cfg''] [],
        FileTree ''x'' [] [FileTree ''PLUGINS'' [''/c/Foo/1.0.0/x/PLUGINS/Foo.dll''] []]]"


text \<open>
  A cache that holds version 2.0.0 of the mod: a \<open>plugins\<close> folder with a subfolder that
  holds a patch file, and a folder \<open>lib\<close>, which matches no rule, with two files and a
  \<open>Config\<close> folder.
\<close>

definition exampleNestedWorld :: world where
  "exampleNestedWorld =
     \<lparr>store = [(''/p'', DirNode), (''/c'', DirNode), (''/c/Foo'', DirNode), (''/c/Foo/2.0.0'', DirNode),
               (''/c/Foo/2.0.0/plugins'', DirNode), (''/c/Foo/2.0.0/plugins/sub'', DirNode),
               (''/c/Foo/2.0.0/plugins/sub/x.mm.dll'', FileNode ''x''),
               (''/c/Foo/2.0.0/lib'', DirNode), (''/c/Foo/2.0.0/lib/y.mm.dll'', FileNode ''y''),
               (''/c/Foo/2.0.0/lib/z.txt'', FileNode ''z''),
               (''/c/Foo/2.0.0/lib/Config'', DirNode), (''/c/Foo/2.0.0/lib/Config/bar.cfg'', FileNode ''b'')],
      busy = [], calls = []\<rparr>"

definition exampleNestedTree :: FileTree where
  "exampleNestedTree =
     FileTree ''2.0.0'' []
       [FileTree ''plugins'' [] [FileTree ''sub'' [''/c/Foo/2.0.0/plugins/sub/x.mm.dll''] []],
        FileTree ''lib'' [''/c/Foo/2.0.0/lib/y.mm.dll'', ''/c/Foo/2.0.0/lib/z.txt'']
          [FileTree ''Config'' [''/c/Foo/2.0.0/lib/Config/bar.cfg''] []]]"

section \<open>The examples, run\<close>

text \<open>
  Installing the cached package into the empty profile: the patch file goes to the
  monomod folder of the mod, the other loose file to the default path, the config folder
  to the shared config directory, and the nested plugins folder to the plugins directory
  of the mod. Disabling the installed mod renames its plugin file, and enabling it again
  gives back the store as it was.
\<close>

lemma scenario_install:
  "resolveBepInExTree exampleInstaller exampleProfile ''/c/Foo/1.0.0'' ''1.0.0'' exampleMod exampleTree
     exampleCacheWorld
   = (None,
      \<lparr>store = store exampleCacheWorld @
         [(''/p/BepInEx'', DirNode), (''/p/BepInEx/monomod'', DirNode),
          (''/p/BepInEx/monomod/Foo'', DirNode),
          (''/p/BepInEx/monomod/Foo/a.mm.dll'', FileNode ''a''),
          (''/p/BepInEx/plugins'', DirNode), (''/p/BepInEx/plugins/Foo'', DirNode),
          (''/p/BepInEx/plugins/Foo/b.txt'', FileNode ''b''),
          (''/p/BepInEx/config'', DirNode), (''/p/BepInEx/config/foo.cfg'', FileNode ''c''),
          (''/p/BepInEx/plugins/Foo/Foo.dll'', FileNode ''d'')],
       busy = [],
       calls =
         [(EnsureDirectory ''/p/BepInEx/monomod/Foo'', True),
          (CopyFile ''/c/Foo/1.0.0/a.mm.dll'' ''/p/BepInEx/monomod/Foo/a.mm.dll'', True),
          (EnsureDirectory ''/p/BepInEx/plugins/Foo'', True),
          (CopyFile ''/c/Foo/1.0.0/b.txt'' ''/p/BepInEx/plugins/Foo/b.txt'', True),
          (EnsureDirectory ''/p/BepInEx/config'', True),
          (CopyFolder ''/c/Foo/1.0.0/Config'' ''/p/BepInEx/config'', True),
          (EnsureDirectory ''/p/BepInEx/plugins/Foo'', True),
          (CopyFolder ''/c/Foo/1.0.0/x/PLUGINS'' ''/p/BepInEx/plugins/Foo'', True)]\<rparr>)"
  by code_simp

lemma scenario_toggle:
  "store (snd (applyModMode exampleInstaller exampleMod exampleInstalledTree exampleProfile ''/p/BepInEx''
                 DISABLED exampleWorld))
     = [(''/p'', DirNode), (''/p/mods.yml'', FileNode ''m''), (''/p/MODS.YML'', FileNode ''M''),
        (''/p/doorstop.ini'', FileNode ''d''), (''/p/BepInEx'', DirNode),
        (''/p/BepInEx/plugins'', DirNode), (''/p/BepInEx/plugins/Foo'', DirNode),
        (''/p/BepInEx/plugins/Foo/Foo.dll.old'', FileNode ''x'')]
   \<and> store (snd (applyModMode exampleInstaller exampleMod
                 (FileTree ''BepInEx'' []
                    [FileTree ''plugins'' [] [FileTree ''Foo'' [''/p/BepInEx/plugins/Foo/Foo.dll.old''] []]])
                 exampleProfile ''/p/BepInEx'' ENABLED
                 (snd (applyModMode exampleInstaller exampleMod exampleInstalledTree exampleProfile
                         ''/p/BepInEx'' DISABLED exampleWorld))))
     = store exampleWorld"
  by code_simp

section \<open>Strings: auxiliary facts\<close>

lemma endsWith_suffix: "endsWith s suf = suffix suf s"
proof
  assume "endsWith s suf"
  then have "s = take (length s - length suf) s @ suf"
    by (metis append_take_drop_id endsWith_def)
  then show "suffix suf s" by (metis suffixI)
next
  assume "suffix suf s"
  then obtain xs where "s = xs @ suf" by (auto simp: suffix_def)
  then show "endsWith s suf" by (simp add: endsWith_def)
qed

lemma toLowerCase_append: "toLowerCase (a @ b) = toLowerCase a @ toLowerCase b"
  by (simp add: toLowerCase_def)

lemma length_toLowerCase: "length (toLowerCase s) = length s"
  by (simp add: toLowerCase_def)

lemma toLowerCase_old: "toLowerCase ''.old'' = ''.old''"
  by (simp add: toLowerCase_def lowerChar_def)

lemma extension_table:
  "\<forall>e1 \<in> set modModeExtensions. \<forall>e2 \<in> set modModeExtensions. endsWith e2 e1 \<longrightarrow> e1 = e2"
  by code_simp

lemma extension_old_table:
  "\<forall>e \<in> set modModeExtensions. \<not> endsWith e ''.old'' \<and> \<not> endsWith ''.old'' e"
  by code_simp

lemma ext_not_after_old:
  assumes "suffix ''.old'' s" "e \<in> set modModeExtensions"
  shows "\<not> suffix e s"
proof
  assume "suffix e s"
  with assms(1) have "suffix ''.old'' e \<or> suffix e ''.old''"
    using suffix_same_cases by blast
  with assms(2) extension_old_table show False
    unfolding endsWith_suffix by blast
qed

lemma ext_unique:
  assumes "e1 \<in> set modModeExtensions" "e2 \<in> set modModeExtensions" "suffix e1 s" "suffix e2 s"
  shows "e1 = e2"
proof -
  from assms(3,4) have "suffix e1 e2 \<or> suffix e2 e1"
    using suffix_same_cases by blast
  with assms(1,2) extension_table show ?thesis
    unfolding endsWith_suffix by blast
qed

lemma concat_if_filter: "concat (map (\<lambda>x. if P x then [f x] else []) xs) = map f (filter P xs)"
  by (induction xs) auto

lemma modeRenames_DISABLED:
  "modeRenames DISABLED file =
     map (\<lambda>ext. (file, file @ ''.old'')) (filter (\<lambda>ext. endsWith (toLowerCase file) ext) modModeExtensions)"
  by (simp add: modeRenames_def concat_if_filter)

lemma modeRenames_ENABLED:
  "modeRenames ENABLED file =
     map (\<lambda>ext. (file, take (length file - 4) file))
       (filter (\<lambda>ext. endsWith (toLowerCase file) (ext @ ''.old'')) modModeExtensions)"
  by (simp add: modeRenames_def concat_if_filter eval_nat_numeral)

lemma matching_extension_unique:
  assumes "e \<in> set modModeExtensions" "suffix e s"
  shows "filter (\<lambda>x. suffix x s) modModeExtensions = [e]"
proof -
  have "\<And>x. x \<in> set modModeExtensions \<Longrightarrow> suffix x s = (x = e)"
    using assms ext_unique by auto
  then have "filter (\<lambda>x. suffix x s) modModeExtensions = filter (\<lambda>x. x = e) modModeExtensions"
    by (auto intro: filter_cong)
  also have "\<dots> = [e]" using assms(1) by (auto simp: modModeExtensions_def)
  finally show ?thesis .
qed

lemma modeRenames_disabled_recognized:
  assumes "e \<in> set modModeExtensions" "endsWith (toLowerCase file) e"
  shows "modeRenames DISABLED file = [(file, file @ ''.old'')]"
  using matching_extension_unique[of e "toLowerCase file"] assms
  by (simp add: modeRenames_DISABLED endsWith_suffix)

lemma lower_split_old:
  assumes "suffix (e @ ''.old'') (toLowerCase file)"
  shows "toLowerCase (drop (length file - 4) file) = ''.old''"
    and "suffix e (toLowerCase (take (length file - 4) file))"
    and "4 \<le> length file"
proof -
  from assms obtain zs where zs: "toLowerCase file = zs @ e @ ''.old''"
    by (auto simp: suffix_def)
  then have "length (toLowerCase file) = length zs + length e + 4" by simp
  then show len: "4 \<le> length file" by (simp add: length_toLowerCase)
  have "toLowerCase (take (length file - 4) file) @ toLowerCase (drop (length file - 4) file)
          = (zs @ e) @ ''.old''"
    using zs by (simp flip: toLowerCase_append)
  moreover have "length (toLowerCase (drop (length file - 4) file)) = length ''.old''"
    using len by (simp add: length_toLowerCase)
  ultimately have "toLowerCase (take (length file - 4) file) = zs @ e
      \<and> toLowerCase (drop (length file - 4) file) = ''.old''"
    using append_eq_append_conv by blast
  then show "toLowerCase (drop (length file - 4) file) = ''.old''"
    and "suffix e (toLowerCase (take (length file - 4) file))"
    by (auto simp: suffix_def)
qed

lemma modeRenames_enabled_recognized:
  assumes "e \<in> set modModeExtensions" "endsWith (toLowerCase file) (e @ ''.old'')"
  shows "modeRenames ENABLED file = [(file, take (length file - 4) file)]"
proof -
  note sp = lower_split_old[OF assms(2)[unfolded endsWith_suffix]]
  have "toLowerCase file = toLowerCase (take (length file - 4) file) @ ''.old''"
    using sp(1) by (metis append_take_drop_id toLowerCase_append)
  then have "\<And>x. suffix (x @ ''.old'') (toLowerCase file) = suffix x (toLowerCase (take (length file - 4) file))"
    by (metis same_suffix_suffix)
  then show ?thesis
    using matching_extension_unique[OF assms(1) sp(2)]
    by (simp add: modeRenames_ENABLED endsWith_suffix)
qed

lemma modeRenames_disabled_none:
  assumes "endsWith (toLowerCase file) (e @ ''.old'')"
  shows "modeRenames DISABLED file = []"
proof -
  have "suffix ''.old'' (toLowerCase file)"
    using assms by (metis endsWith_suffix suffix_appendD)
  then show ?thesis
    using ext_not_after_old by (auto simp: modeRenames_DISABLED endsWith_suffix filter_empty_conv)
qed

lemma modeRenames_enabled_none:
  assumes "\<forall>e \<in> set modModeExtensions. \<not> endsWith (toLowerCase file) (e @ ''.old'')"
  shows "modeRenames ENABLED file = []"
  using assms by (auto simp: modeRenames_ENABLED filter_empty_conv)

section \<open>The file system: auxiliary facts\<close>

lemma map_of_removeKeys: "map_of (removeKeys D s) k = (if D k then None else map_of s k)"
  by (induction s) (auto simp: removeKeys_def)

lemma under_path_join: "liesUnder dir (path_join dir n)"
  by (simp add: liesUnder_def path_join_def)

lemma under_trans: "liesUnder (path_join dir n) k \<Longrightarrow> liesUnder dir k"
  by (auto simp: liesUnder_def path_join_def prefix_def)

lemma lstat_result:
  "lstat p w = (r, w1) \<Longrightarrow> store w1 = store w \<and> busy w1 = busy w \<and>
     (case r of Inl e \<Rightarrow> map_of (store w) p = None | Inr st \<Rightarrow> map_of (store w) p = Some st)"
  by (auto simp: lstat_def fscalled_def split: option.splits)

lemma exists_result:
  "exists p w = (r, w1) \<Longrightarrow> store w1 = store w \<and> busy w1 = busy w"
  by (auto simp: exists_def)

lemma readdir_result:
  "readdir p w = (r, w1) \<Longrightarrow> store w1 = store w \<and> busy w1 = busy w \<and>
     (case r of Inl e \<Rightarrow> True
      | Inr names \<Rightarrow> names = List.map_filter (\<lambda>(k, n). childName p k) (store w))"
  by (auto simp: readdir_def fscalled_def split: if_splits)

lemma unlink_result:
  "unlink p w = (r, w1) \<Longrightarrow> busy w1 = busy w \<and>
     (case r of Inl e \<Rightarrow> store w1 = store w
      | Inr u \<Rightarrow> fileAt (store w) p \<and> store w1 = removeKeys (\<lambda>k. k = p) (store w))"
  by (auto simp: unlink_def fscalled_def fileAt_def split: if_splits option.splits node.splits)

lemma rmdir_result:
  "rmdir p w = (r, w1) \<Longrightarrow> busy w1 = busy w \<and>
     (case r of Inl e \<Rightarrow> store w1 = store w
      | Inr u \<Rightarrow> store w1 = removeKeys (\<lambda>k. k = p) (store w))"
  by (auto simp: rmdir_def fscalled_def split: if_splits)

lemma emptyDirectory_result:
  "emptyDirectory p w = (r, w1) \<Longrightarrow> busy w1 = busy w \<and>
     (\<exists>D. store w1 = removeKeys D (store w) \<and> (\<forall>k. D k \<longrightarrow> liesUnder p k))"
proof (cases "map_of (store w) p \<noteq> Some DirNode")
  case True
  assume "emptyDirectory p w = (r, w1)"
  with True have "store w1 = store w" "busy w1 = busy w"
    by (auto simp: emptyDirectory_def fscalled_def)
  moreover have "store w = removeKeys (\<lambda>k. False) (store w)" by (simp add: removeKeys_def)
  ultimately show ?thesis by (metis (full_types)) 
next
  case False
  assume "emptyDirectory p w = (r, w1)"
  with False have "busy w1 = busy w" and
    "store w1 = removeKeys (\<lambda>k. k \<in> set (takeWhile (\<lambda>k. k \<notin> set (busy w)) (filter (liesUnder p) (map fst (store w))))) (store w)"
    by (auto simp: emptyDirectory_def fscalled_def Let_def)
  moreover have "\<forall>k. k \<in> set (takeWhile (\<lambda>k. k \<notin> set (busy w)) (filter (liesUnder p) (map fst (store w)))) \<longrightarrow> liesUnder p k"
    by (auto dest!: set_takeWhileD)
  ultimately show ?thesis by blast
qed

lemma removeModFolders_frame:
  "\<not> liesUnder dir k \<Longrightarrow> map_of (store (snd (removeModFolders md dir folders w))) k = map_of (store w) k"
proof (induction folders arbitrary: w)
  case Nil
  then show ?case by simp
next
  case (Cons folder rest)
  have nk: "k \<noteq> path_join dir folder" using Cons.prems under_path_join by auto
  have nu: "\<not> liesUnder (path_join dir folder) k" using Cons.prems under_trans by auto
  show ?case
    using Cons.IH[OF Cons.prems] nk nu
    by (auto simp: Let_def map_of_removeKeys split: prod.splits sum.splits
             dest!: lstat_result emptyDirectory_result rmdir_result)
qed

lemma removeModFolders_frame_eq:
  "removeModFolders md dir folders w = (r, w') \<Longrightarrow> \<not> liesUnder dir k \<Longrightarrow>
     map_of (store w') k = map_of (store w) k"
  using removeModFolders_frame[of dir k md folders w] by simp

lemma removeFromManagedFolders_frame:
  "\<not> liesUnder bep k \<Longrightarrow> map_of (store (snd (removeFromManagedFolders md bep names w))) k = map_of (store w) k"
proof (induction names arbitrary: w)
  case Nil
  then show ?case by simp
next
  case (Cons entry rest)
  have nu: "\<not> liesUnder (path_join bep entry) k" using Cons.prems under_trans by auto
  show ?case
    using Cons.IH[OF Cons.prems] nu
    by (auto split: prod.splits sum.splits
             dest!: lstat_result readdir_result removeModFolders_frame_eq[where k = k])
qed

lemma removeFromManagedFolders_frame_eq:
  "removeFromManagedFolders md bep names w = (r, w') \<Longrightarrow> \<not> liesUnder bep k \<Longrightarrow>
     map_of (store w') k = map_of (store w) k"
  using removeFromManagedFolders_frame[of bep k md names w] by simp

lemma managedSubfolderPass_frame:
  "\<not> liesUnder (path_join (getPathOfProfile profile) ''BepInEx'') k \<Longrightarrow>
     map_of (store (snd (managedSubfolderPass md profile w))) k = map_of (store w) k"
  by (auto simp: managedSubfolderPass_def Let_def split: prod.splits sum.splits
           dest!: exists_result readdir_result removeFromManagedFolders_frame_eq[where k = k])

lemma childName_Some: "childName p k = Some n \<Longrightarrow> k = path_join p n \<and> CHR ''/'' \<notin> set n"
  by (auto simp: childName_def liesUnder_def path_join_def prefix_def split: if_splits)

lemma childName_path_join: "CHR ''/'' \<notin> set n \<Longrightarrow> childName p (path_join p n) = Some n"
  by (simp add: childName_def liesUnder_def path_join_def)

lemma path_join_inject: "path_join p a = path_join p b \<Longrightarrow> a = b"
  by (simp add: path_join_def)

lemma set_map_filter_iff: "y \<in> set (List.map_filter f xs) \<longleftrightarrow> (\<exists>x \<in> set xs. f x = Some y)"
  by (induction xs) (auto split: option.splits)

lemma names_listed:
  "map_of s k = Some v \<Longrightarrow> childName p k = Some n \<Longrightarrow>
     n \<in> set (List.map_filter (\<lambda>(k, n). childName p k) s)"
  by (force simp: set_map_filter_iff dest: map_of_SomeD)

lemma names_no_separator:
  "n \<in> set (List.map_filter (\<lambda>(k, n). childName p k) s) \<Longrightarrow> CHR ''/'' \<notin> set n"
  by (auto simp: set_map_filter_iff dest: childName_Some)

lemma deleteRootFiles_Cons_cases:
  obtains
    (stop) e w1 where "deleteRootFiles root (entry # rest) w = (Inl e, w1)"
      and "store w1 = store w"
  | (skip) w1 where "deleteRootFiles root (entry # rest) w = deleteRootFiles root rest w1"
      and "store w1 = store w"
      and "\<not> fileAt (store w) (path_join root entry) \<or> toLowerCase entry = ''mods.yml''"
  | (delete) w1 where "deleteRootFiles root (entry # rest) w = deleteRootFiles root rest w1"
      and "store w1 = removeKeys (\<lambda>k. k = path_join root entry) (store w)"
      and "fileAt (store w) (path_join root entry)" and "toLowerCase entry \<noteq> ''mods.yml''"
proof -
  obtain r w1 where l: "lstat (path_join root entry) w = (r, w1)" by fastforce
  note lr = lstat_result[OF l]
  show ?thesis
  proof (cases r)
    case (Inl e)
    then show ?thesis using l lr stop by (simp add: Let_def)
  next
    case (Inr st)
    show ?thesis
    proof (cases "isFile st \<and> toLowerCase entry \<noteq> ''mods.yml''")
      case False
      have "\<not> fileAt (store w) (path_join root entry) \<or> toLowerCase entry = ''mods.yml''"
        using False lr Inr by (auto simp: fileAt_def)
      moreover have "deleteRootFiles root (entry # rest) w = deleteRootFiles root rest w1"
        using False l Inr by (auto simp: Let_def)
      ultimately show ?thesis using skip lr by blast
    next
      case True
      obtain r2 w2 where u: "unlink (path_join root entry) w1 = (r2, w2)" by fastforce
      note ur = unlink_result[OF u]
      show ?thesis
      proof (cases r2)
        case (Inl e)
        have "deleteRootFiles root (entry # rest) w = (Inl e, w2)"
          using True l Inr u Inl by (simp add: Let_def)
        then show ?thesis using stop ur lr Inl by simp
      next
        case (Inr u')
        have "deleteRootFiles root (entry # rest) w = deleteRootFiles root rest w2"
          using True l \<open>r = Inr st\<close> u Inr by (simp add: Let_def)
        moreover have "fileAt (store w) (path_join root entry)"
          using True lr \<open>r = Inr st\<close> by (simp add: fileAt_def)
        ultimately show ?thesis using delete ur lr Inr True by simp
      qed
    qed
  qed
qed

lemma deleteRootFiles_frame:
  "(\<forall>entry \<in> set names. k = path_join root entry \<longrightarrow>
       toLowerCase entry = ''mods.yml'' \<or> \<not> fileAt (store w) k) \<Longrightarrow>
   map_of (store (snd (deleteRootFiles root names w))) k = map_of (store w) k"
proof (induction names arbitrary: w)
  case Nil
  then show ?case by simp
next
  case (Cons entry rest)
  have keep: "map_of (store (snd (deleteRootFiles root rest w1))) k = map_of (store w) k"
    if eq: "map_of (store w1) k = map_of (store w) k" for w1
  proof -
    have "fileAt (store w1) k = fileAt (store w) k" by (simp add: fileAt_def eq)
    then have "\<forall>entry \<in> set rest. k = path_join root entry \<longrightarrow>
                 toLowerCase entry = ''mods.yml'' \<or> \<not> fileAt (store w1) k"
      using Cons.prems by auto
    from Cons.IH[OF this] eq show ?thesis by simp
  qed
  show ?case
  proof (cases rule: deleteRootFiles_Cons_cases[of root entry rest w])
    case (stop e w1)
    then show ?thesis by simp
  next
    case (skip w1)
    then show ?thesis using keep[of w1] by simp
  next
    case (delete w1)
    then have "k \<noteq> path_join root entry" using Cons.prems by auto
    then have "map_of (store w1) k = map_of (store w) k"
      using delete by (simp add: map_of_removeKeys)
    then show ?thesis using keep[of w1] delete by simp
  qed
qed

lemma deleteRootFiles_frame_eq:
  "deleteRootFiles root names w = (r, w') \<Longrightarrow>
   (\<forall>entry \<in> set names. k = path_join root entry \<longrightarrow>
       toLowerCase entry = ''mods.yml'' \<or> \<not> fileAt (store w) k) \<Longrightarrow>
   map_of (store w') k = map_of (store w) k"
  using deleteRootFiles_frame[of names k root w] by simp

lemma loaderRootPass_frame:
  assumes "childName (getPathOfProfile profile) k = None \<or> \<not> fileAt (store w) k
           \<or> (\<exists>n. childName (getPathOfProfile profile) k = Some n \<and> toLowerCase n = ''mods.yml'')"
  shows "map_of (store (snd (loaderRootPass ctx md profile w))) k = map_of (store w) k"
proof -
  let ?root = "getPathOfProfile profile"
  let ?names = "List.map_filter (\<lambda>(k, n). childName ?root k) (store w)"
  have "\<forall>entry \<in> set ?names. k = path_join ?root entry \<longrightarrow>
          toLowerCase entry = ''mods.yml'' \<or> \<not> fileAt (store w) k"
    using assms by (auto dest!: names_no_separator simp: childName_path_join)
  then have "map_of (store w') k = map_of (store w) k"
    if "deleteRootFiles ?root ?names w1 = (r, w')" "store w1 = store w" for w1 r w'
    using deleteRootFiles_frame_eq[OF that(1), of k] that(2) by simp
  then show ?thesis
    by (auto simp: loaderRootPass_def split: prod.splits sum.splits dest!: readdir_result)
qed

lemma root_entry_outside_BepInEx:
  "childName root p = Some n \<Longrightarrow> \<not> liesUnder (path_join root ''BepInEx'') p"
  by (auto dest!: childName_Some simp: liesUnder_def path_join_def prefix_def)

lemma below_root_entry:
  "childName root p = Some n \<Longrightarrow> liesUnder p q \<Longrightarrow> childName root q = None"
proof -
  assume "childName root p = Some n" and "liesUnder p q"
  then obtain zs where "q = (root @ ''/'' @ n) @ ''/'' @ zs"
    by (auto dest!: childName_Some simp: liesUnder_def path_join_def prefix_def)
  then have "drop (length root + 1) q = n @ ''/'' @ zs" by simp
  then show ?thesis by (simp add: childName_def)
qed

lemma deleteRootFiles_monotone:
  "map_of (store (snd (deleteRootFiles root names w))) k = None
     \<or> map_of (store (snd (deleteRootFiles root names w))) k = map_of (store w) k"
proof (induction names arbitrary: w)
  case Nil
  then show ?case by simp
next
  case (Cons entry rest)
  show ?case
  proof (cases rule: deleteRootFiles_Cons_cases[of root entry rest w])
    case (stop e w1)
    then show ?thesis by simp
  next
    case (skip w1)
    then show ?thesis using Cons.IH[of w1] by simp
  next
    case (delete w1)
    then show ?thesis using Cons.IH[of w1] by (auto simp: map_of_removeKeys)
  qed
qed

lemma deleteRootFiles_deleted:
  "fst (deleteRootFiles root names w) = Inr u \<Longrightarrow> entry \<in> set names \<Longrightarrow>
   toLowerCase entry \<noteq> ''mods.yml'' \<Longrightarrow>
   \<not> fileAt (store (snd (deleteRootFiles root names w))) (path_join root entry)"
proof (induction names arbitrary: w)
  case Nil
  then show ?case by simp
next
  case (Cons a rest)
  let ?k = "path_join root entry"
  have gone: "\<not> fileAt (store (snd (deleteRootFiles root rest w1))) ?k"
    if "\<not> fileAt (store w1) ?k" for w1
    using deleteRootFiles_monotone[of root rest w1 ?k] that by (auto simp: fileAt_def)
  show ?case
  proof (cases rule: deleteRootFiles_Cons_cases[of root a rest w])
    case (stop e w1)
    then show ?thesis using Cons.prems by simp
  next
    case (skip w1)
    show ?thesis
    proof (cases "entry = a")
      case True
      then have "\<not> fileAt (store w1) ?k" using skip Cons.prems by auto
      then show ?thesis using gone skip by simp
    next
      case False
      then show ?thesis using Cons.IH[of w1] Cons.prems skip by simp
    qed
  next
    case (delete w1)
    show ?thesis
    proof (cases "entry = a")
      case True
      then have "\<not> fileAt (store w1) ?k" using delete by (simp add: fileAt_def map_of_removeKeys)
      then show ?thesis using gone delete by simp
    next
      case False
      then show ?thesis using Cons.IH[of w1] Cons.prems delete by simp
    qed
  qed
qed


section \<open>Runs that stop at the first failure\<close>

lemma failFastRun_iff: "failFastRun w w' ok \<longleftrightarrow> (\<exists>cs. calls w' = calls w @ cs \<and> failFast ok cs)"
  by (auto simp: failFastRun_def newCalls_def)

lemma failFastRun_refl: "failFastRun w w True"
  by (simp add: failFastRun_iff failFast_def)

lemma failFastRun_seq: "failFastRun w w1 True \<Longrightarrow> failFastRun w1 w2 ok \<Longrightarrow> failFastRun w w2 ok"
proof -
  assume "failFastRun w w1 True" "failFastRun w1 w2 ok"
  then obtain cs1 cs2 where 1: "calls w1 = calls w @ cs1" "list_all snd cs1"
    and 2: "calls w2 = calls w1 @ cs2" "failFast ok cs2"
    by (auto simp: failFastRun_iff failFast_def)
  have "failFast ok (cs1 @ cs2)"
    using 1(2) 2(2) by (auto simp: failFast_def butlast_append)
  then show ?thesis using 1(1) 2(1) by (auto simp: failFastRun_iff)
qed

lemma failFastRun_call: "fscalled c r s w = (r', w1) \<Longrightarrow> failFastRun w w1 (returned r')"
  by (cases "returned r'") (auto simp: fscalled_def failFastRun_iff failFast_def)

lemma ensureDirectory_run: "ensureDirectory p w = (r, w1) \<Longrightarrow> failFastRun w w1 (returned r)"
  by (auto simp: ensureDirectory_def split: if_splits dest: failFastRun_call)

lemma copyFile_run: "copyFile a b w = (r, w1) \<Longrightarrow> failFastRun w w1 (returned r)"
  by (auto simp: copyFile_def split: if_splits option.splits node.splits dest: failFastRun_call)

lemma copyFolder_run: "copyFolder a b w = (r, w1) \<Longrightarrow> failFastRun w w1 (returned r)"
  by (auto simp: copyFolder_def split: if_splits dest: failFastRun_call)







lemma resolveEndFolder_run:
  "resolveEndFolder ctx profile location folderName md destination w = (r, w1)
     \<Longrightarrow> failFastRun w w1 (r = None)"
  by (auto simp: resolveEndFolder_def Let_def returned_def split: prod.splits sum.splits
           dest!: ensureDirectory_run copyFolder_run intro: failFastRun_seq)

lemma resolveFile_run:
  "resolveFile ctx profile location md f w = (r, w1) \<Longrightarrow> failFastRun w w1 (r = None)"
  by (auto simp: resolveFile_def Let_def returned_def split: prod.splits sum.splits
           dest!: ensureDirectory_run copyFile_run intro: failFastRun_seq)

lemma resolveFiles_run:
  "resolveFiles ctx profile location md fs w = (r, w1) \<Longrightarrow> failFastRun w w1 (r = None)"
proof (induction fs arbitrary: w)
  case Nil
  then show ?case by (auto simp: failFastRun_refl)
next
  case (Cons a fs)
  then show ?case
    by (auto split: prod.splits option.splits dest!: resolveFile_run intro: failFastRun_seq)
qed

lemma resolveDirectories_run:
  assumes "\<And>d loc fn w r w1. d \<in> set dirs \<Longrightarrow> resolveBepInExTree ctx profile loc fn md d w = (r, w1)
             \<Longrightarrow> failFastRun w w1 (r = None)"
  shows "resolveDirectories ctx profile location md dirs w = (r, w1) \<Longrightarrow> failFastRun w w1 (r = None)"
  using assms
proof (induction dirs arbitrary: w)
  case Nil
  then show ?case by (auto simp: failFastRun_refl)
next
  case (Cons d dirs)
  obtain r0 w0 where a: "resolveBepInExTree ctx profile (path_join location (getDirectoryName d))
                           (getDirectoryName d) md d w = (r0, w0)"
    by fastforce
  have run0: "failFastRun w w0 (r0 = None)" using Cons.prems(2)[OF _ a] by simp
  show ?case
  proof (cases r0)
    case None
    then have "resolveDirectories ctx profile location md dirs w0 = (r, w1)"
      using Cons.prems(1) a by simp
    then have "failFastRun w0 w1 (r = None)"
      by (rule Cons.IH) (rule Cons.prems(2), simp_all)
    with run0 None show ?thesis by (auto intro: failFastRun_seq)
  next
    case (Some err)
    then show ?thesis using Cons.prems(1) a run0 by auto
  qed
qed

lemma resolveBepInExTree_run:
  "resolveBepInExTree ctx profile location folderName md tree w = (r, w1)
     \<Longrightarrow> failFastRun w w1 (r = None)"
proof (induction tree arbitrary: location folderName w r w1)
  case (FileTree name fs dirs)
  show ?case
  proof (cases "matchingEndFolderName (rule ctx) folderName")
    case (Some m)
    then show ?thesis using FileTree.prems by (auto split: prod.splits dest!: resolveEndFolder_run)
  next
    case None
    obtain r0 w0 where f: "resolveFiles ctx profile location md fs w = (r0, w0)" by fastforce
    note run0 = resolveFiles_run[OF f]
    show ?thesis
    proof (cases r0)
      case (Some err)
      then show ?thesis using FileTree.prems None f run0 by auto
    next
      case None': None
      then have "resolveDirectories ctx profile location md dirs w0 = (r, w1)"
        using FileTree.prems None f by simp
      then have "failFastRun w0 w1 (r = None)"
        by (rule resolveDirectories_run[rotated]) (rule FileTree.IH)
      with run0 None' show ?thesis by (auto intro: failFastRun_seq)
    qed
  qed
qed

section \<open>Paths and base names\<close>

lemma lowerChar_slash: "lowerChar c = CHR ''/'' \<longleftrightarrow> c = CHR ''/''"
  by (simp add: lowerChar_def)

lemma toLowerCase_slash: "CHR ''/'' \<in> set (toLowerCase s) \<longleftrightarrow> CHR ''/'' \<in> set s"
  by (auto simp: toLowerCase_def image_iff) (metis lowerChar_slash)+

lemma basename_split: "\<exists>pre. p = pre @ basename p \<and> (pre = [] \<or> last pre = CHR ''/'')"
proof -
  let ?b = "takeWhile (\<lambda>c. c \<noteq> CHR ''/'') (rev p)"
  let ?d = "dropWhile (\<lambda>c. c \<noteq> CHR ''/'') (rev p)"
  have "rev (rev p) = rev (?b @ ?d)" by (simp only: takeWhile_dropWhile_id)
  then have "p = rev ?d @ rev ?b" by (simp only: rev_rev_ident rev_append)
  moreover have "rev ?d = [] \<or> last (rev ?d) = CHR ''/''"
  proof (cases "?d = []")
    case True
    then show ?thesis by simp
  next
    case False
    then have "\<not> (hd ?d \<noteq> CHR ''/'')" by (rule hd_dropWhile)
    then show ?thesis using False by (simp add: last_rev)
  qed
  ultimately have "p = rev ?d @ basename p \<and> (rev ?d = [] \<or> last (rev ?d) = CHR ''/'')"
    by (simp add: basename_def)
  then show ?thesis by blast
qed

lemma basename_no_separator: "CHR ''/'' \<notin> set (basename p)"
  by (auto simp: basename_def dest: set_takeWhileD)

lemma suffix_after_separator:
  assumes "x \<notin> set s" "pre = [] \<or> last pre = x"
  shows "suffix s (pre @ b) \<longleftrightarrow> suffix s b"
proof
  assume "suffix s b" then show "suffix s (pre @ b)" by (rule suffix_appendI)
next
  assume "suffix s (pre @ b)"
  moreover have "suffix b (pre @ b)" by (simp add: suffix_def)
  ultimately have "suffix s b \<or> suffix b s" by (rule suffix_same_cases)
  then show "suffix s b"
  proof
    assume "suffix b s"
    then obtain t where t: "s = t @ b" by (auto simp: suffix_def)
    with \<open>suffix s (pre @ b)\<close> have "suffix t pre" by (simp add: suffix_def) 
    then have "t = []" using assms t
      by (cases t rule: rev_cases) (auto simp: suffix_def)
    then show ?thesis using t by simp
  qed
qed

lemma endsWith_basename:
  assumes "CHR ''/'' \<notin> set s"
  shows "endsWith (toLowerCase p) s = endsWith (toLowerCase (basename p)) s"
proof -
  obtain pre where pre: "p = pre @ basename p" "pre = [] \<or> last pre = CHR ''/''"
    using basename_split by blast
  have "toLowerCase pre = [] \<or> last (toLowerCase pre) = CHR ''/''"
  proof (cases "pre = []")
    case True
    then show ?thesis by (simp add: toLowerCase_def)
  next
    case False
    then have "last (toLowerCase pre) = lowerChar (last pre)"
      by (simp add: toLowerCase_def last_map)
    then show ?thesis using pre(2) False by (simp add: lowerChar_slash)
  qed
  from suffix_after_separator[OF assms this, of "toLowerCase (basename p)"]
  show ?thesis using pre(1) by (metis endsWith_suffix toLowerCase_append)
qed

lemma ensureDirectory_calls:
  "ensureDirectory p w = (r, w1) \<Longrightarrow> calls w1 = calls w @ [(EnsureDirectory p, returned r)]"
  by (auto simp: ensureDirectory_def fscalled_def split: if_splits)

lemma copyFile_calls:
  "copyFile a b w = (r, w1) \<Longrightarrow> calls w1 = calls w @ [(CopyFile a b, returned r)]"
  by (auto simp: copyFile_def fscalled_def split: if_splits option.splits node.splits)

lemma copyFolder_calls:
  "copyFolder a b w = (r, w1) \<Longrightarrow> calls w1 = calls w @ [(CopyFolder a b, returned r)]"
  by (auto simp: copyFolder_def fscalled_def split: if_splits)

lemma newCalls_append: "calls w1 = calls w @ cs \<Longrightarrow> newCalls w w1 = cs"
  by (simp add: newCalls_def)

lemma resolveEndFolder_calls:
  assumes "resolveEndFolder ctx profile location folderName md destination w = (r, w1)"
  shows "(r = None \<longrightarrow> newCalls w w1 =
             [(EnsureDirectory (endFolderLocation profile folderName md destination), True),
              (CopyFolder location (endFolderLocation profile folderName md destination), True)])
       \<and> (r \<noteq> None \<longrightarrow>
             newCalls w w1 = [(EnsureDirectory (endFolderLocation profile folderName md destination), False)]
           \<or> newCalls w w1 =
             [(EnsureDirectory (endFolderLocation profile folderName md destination), True),
              (CopyFolder location (endFolderLocation profile folderName md destination), False)])"
  using assms
  by (auto simp: resolveEndFolder_def Let_def returned_def split: prod.splits sum.splits
           dest!: ensureDirectory_calls copyFolder_calls intro!: newCalls_append)

lemma resolveFile_calls:
  assumes "resolveFile ctx profile location md f w = (r, w1)"
  shows "(r = None \<longrightarrow> newCalls w w1 =
             [(EnsureDirectory (fileLocation ctx profile md f), True),
              (CopyFile f (path_join (fileLocation ctx profile md f) (basename f)), True)])
       \<and> (r \<noteq> None \<longrightarrow>
             newCalls w w1 = [(EnsureDirectory (fileLocation ctx profile md f), False)]
           \<or> newCalls w w1 =
             [(EnsureDirectory (fileLocation ctx profile md f), True),
              (CopyFile f (path_join (fileLocation ctx profile md f) (basename f)), False)])"
  using assms
  by (auto simp: resolveFile_def Let_def returned_def split: prod.splits sum.splits
           dest!: ensureDirectory_calls copyFile_calls intro!: newCalls_append)

lemma run_calls: "failFastRun w w1 ok \<Longrightarrow> calls w1 = calls w @ newCalls w w1"
  by (simp add: failFastRun_def)

lemma newCalls_seq:
  "failFastRun w w0 a \<Longrightarrow> failFastRun w0 w1 b \<Longrightarrow> newCalls w w1 = newCalls w w0 @ newCalls w0 w1"
  by (metis append.assoc newCalls_append run_calls)

lemma resolveFiles_copies:
  "resolveFiles ctx profile location md fs w = (None, w1) \<Longrightarrow> f \<in> set fs \<Longrightarrow>
     (CopyFile f (path_join (fileLocation ctx profile md f) (basename f)), True) \<in> set (newCalls w w1)"
proof (induction fs arbitrary: w)
  case Nil
  then show ?case by simp
next
  case (Cons a fs)
  obtain r0 w0 where s: "resolveFile ctx profile location md a w = (r0, w0)" by fastforce
  with Cons.prems(1) have r0: "r0 = None" and rest: "resolveFiles ctx profile location md fs w0 = (None, w1)"
    by (auto split: option.splits)
  have split: "newCalls w w1 = newCalls w w0 @ newCalls w0 w1"
    using newCalls_seq[OF resolveFile_run[OF s] resolveFiles_run[OF rest]] .
  show ?case
  proof (cases "f = a")
    case True
    then show ?thesis using resolveFile_calls[OF s] r0 split by simp
  next
    case False
    then have "f \<in> set fs" using Cons.prems(2) by simp
    from Cons.IH[OF rest this] split show ?thesis by simp
  qed
qed

section \<open>The calls of a run without failure\<close>

lemma resolveFiles_plan:
  "resolveFiles ctx profile location md fs w = (None, w1) \<Longrightarrow>
     newCalls w w1 = succeeded (concat (map (\<lambda>f. [EnsureDirectory (fileLocation ctx profile md f),
                             CopyFile f (path_join (fileLocation ctx profile md f) (basename f))]) fs))"
proof (induction fs arbitrary: w)
  case Nil
  then show ?case by (simp add: newCalls_def succeeded_def)
next
  case (Cons a fs)
  obtain r0 w0 where s: "resolveFile ctx profile location md a w = (r0, w0)" by fastforce
  with Cons.prems(1) have r0: "r0 = None" and rest: "resolveFiles ctx profile location md fs w0 = (None, w1)"
    by (auto split: option.splits)
  have split: "newCalls w w1 = newCalls w w0 @ newCalls w0 w1"
    using newCalls_seq[OF resolveFile_run[OF s] resolveFiles_run[OF rest]] .
  show ?case
    using resolveFile_calls[OF s] r0 split Cons.IH[OF rest] by (simp add: succeeded_def)
qed

lemma resolveDirectories_plan:
  assumes "\<And>d loc fn w w1. d \<in> set dirs \<Longrightarrow> resolveBepInExTree ctx profile loc fn md d w = (None, w1)
             \<Longrightarrow> newCalls w w1 = succeeded (plannedCalls ctx profile loc fn md d)"
  shows "resolveDirectories ctx profile location md dirs w = (None, w1) \<Longrightarrow>
     newCalls w w1 = succeeded (concat (map (\<lambda>d. plannedCalls ctx profile (path_join location (getDirectoryName d))
                                 (getDirectoryName d) md d) dirs))"
  using assms
proof (induction dirs arbitrary: w)
  case Nil
  then show ?case by (simp add: newCalls_def succeeded_def)
next
  case (Cons d dirs)
  obtain r0 w0 where a: "resolveBepInExTree ctx profile (path_join location (getDirectoryName d))
                           (getDirectoryName d) md d w = (r0, w0)"
    by fastforce
  with Cons.prems(1) have r0: "r0 = None" and rest: "resolveDirectories ctx profile location md dirs w0 = (None, w1)"
    by (auto split: option.splits)
  have 1: "newCalls w w0 = succeeded (plannedCalls ctx profile (path_join location (getDirectoryName d))
                                 (getDirectoryName d) md d)"
    using Cons.prems(2)[OF _ a[unfolded r0]] by simp
  have 2: "newCalls w0 w1 = succeeded (concat (map (\<lambda>d. plannedCalls ctx profile (path_join location (getDirectoryName d))
                                 (getDirectoryName d) md d) dirs))"
    using rest by (rule Cons.IH) (rule Cons.prems(2), simp_all)
  have "failFastRun w0 w1 True"
    using resolveDirectories_run[OF resolveBepInExTree_run rest] by simp
  from newCalls_seq[OF resolveBepInExTree_run[OF a] this] 1 2
  show ?case by (simp add: succeeded_def)
qed

lemma resolveBepInExTree_plan:
  "resolveBepInExTree ctx profile location folderName md tree w = (None, w1) \<Longrightarrow>
     newCalls w w1 = succeeded (plannedCalls ctx profile location folderName md tree)"
proof (induction tree arbitrary: location folderName w w1)
  case (FileTree name fs dirs)
  show ?case
  proof (cases "matchingEndFolderName (rule ctx) folderName")
    case (Some m)
    obtain folder destination where m: "m = (folder, destination)" by (cases m)
    have "resolveEndFolder ctx profile location folderName md destination w = (None, w1)"
      using FileTree.prems Some m by simp
    from resolveEndFolder_calls[OF this] show ?thesis using Some m by (simp add: succeeded_def)
  next
    case None
    obtain r0 w0 where f: "resolveFiles ctx profile location md fs w = (r0, w0)" by fastforce
    with FileTree.prems None have r0: "r0 = None"
      and rest: "resolveDirectories ctx profile location md dirs w0 = (None, w1)"
      by (auto split: option.splits)
    have 2: "newCalls w0 w1 = succeeded (concat (map (\<lambda>d. plannedCalls ctx profile (path_join location (getDirectoryName d))
                                 (getDirectoryName d) md d) dirs))"
      using rest by (rule resolveDirectories_plan[rotated]) (rule FileTree.IH)
    have "failFastRun w0 w1 True"
      using resolveDirectories_run[OF resolveBepInExTree_run rest] by simp
    from newCalls_seq[OF resolveFiles_run[OF f] this] resolveFiles_plan[OF f[unfolded r0]] 2
    show ?thesis using None by (simp add: succeeded_def)
  qed
qed

lemma within_child: "within (path_join dir n) p \<Longrightarrow> liesUnder dir p"
  using under_path_join under_trans by (auto simp: within_def)

lemma within_refl: "within dir dir"
  by (simp add: within_def)

lemma within_first_segment:
  assumes "within (path_join dir a) p" "CHR ''/'' \<notin> set a"
  shows "takeWhile (\<lambda>c. c \<noteq> CHR ''/'') (drop (length dir + 1) p) = a"
proof -
  have tw: "takeWhile (\<lambda>c. c \<noteq> CHR ''/'') (a @ ys) = a @ takeWhile (\<lambda>c. c \<noteq> CHR ''/'') ys" for ys
    using assms(2) by (intro takeWhile_append2) auto
  from assms(1) consider "p = dir @ ''/'' @ a" | zs where "p = dir @ ''/'' @ a @ ''/'' @ zs"
    by (auto simp: within_def liesUnder_def path_join_def prefix_def)
  then show ?thesis
  proof cases
    case 1
    then have "drop (length dir + 1) p = a @ []" by simp
    then show ?thesis by (simp only: tw) simp
  next
    case 2
    then have "drop (length dir + 1) p = a @ (CHR ''/'' # zs)" by simp
    then show ?thesis by (simp only: tw) simp
  qed
qed

lemma within_siblings:
  assumes "within (path_join dir a) p" "within (path_join dir b) p"
    "CHR ''/'' \<notin> set a" "CHR ''/'' \<notin> set b"
  shows "a = b"
  using within_first_segment[OF assms(1,3)] within_first_segment[OF assms(2,4)] by simp

lemma file_not_within_sibling:
  assumes "childName dir f \<noteq> None" "within (path_join dir a) f"
  shows "f = path_join dir a"
proof -
  obtain n where n: "f = path_join dir n" "CHR ''/'' \<notin> set n"
    using assms(1) childName_Some by blast
  from assms(2) have "f = path_join dir a \<or> liesUnder (path_join dir a) f" by (simp add: within_def)
  then show ?thesis
  proof
    assume "liesUnder (path_join dir a) f"
    then have "CHR ''/'' \<in> set n" using n(1)
      by (auto simp: liesUnder_def path_join_def prefix_def)
    then show ?thesis using n(2) by simp
  qed
qed

lemma copiesOf_append: "copiesOf (a @ b) p = copiesOf a p + copiesOf b p"
  by (simp add: copiesOf_def)

lemma copiesOf_succeeded_append:
  "copiesOf (succeeded (a @ b)) p = copiesOf (succeeded a) p + copiesOf (succeeded b) p"
  by (simp add: copiesOf_def succeeded_def)

lemma copiesOf_succeeded_concat:
  "copiesOf (succeeded (concat (map h xs))) p = sum_list (map (\<lambda>x. copiesOf (succeeded (h x)) p) xs)"
  by (induction xs) (simp_all add: copiesOf_succeeded_append, simp add: copiesOf_def succeeded_def)

lemma copiesOf_files:
  "distinct fs \<Longrightarrow>
   copiesOf (succeeded (concat (map (\<lambda>f. [EnsureDirectory (a f), CopyFile f (b f)]) fs))) p
     = (if p \<in> set fs then 1 else 0)"
  by (induction fs) (auto simp: copiesOf_def succeeded_def)

lemma sum_list_zero: "(\<forall>x \<in> set xs. g x = (0::nat)) \<Longrightarrow> sum_list (map g xs) = 0"
  by (induction xs) auto

lemma sum_list_single:
  "distinct xs \<Longrightarrow> x \<in> set xs \<Longrightarrow> (\<forall>y \<in> set xs. y \<noteq> x \<longrightarrow> g y = (0::nat)) \<Longrightarrow>
     sum_list (map g xs) = g x"
proof (induction xs)
  case Nil
  then show ?case by simp
next
  case (Cons a xs)
  show ?case
  proof (cases "a = x")
    case True
    then have "\<forall>y \<in> set xs. g y = 0" using Cons.prems by auto
    then show ?thesis using True by (simp add: sum_list_zero)
  next
    case False
    then show ?thesis using Cons by auto
  qed
qed

lemma recursive_files_under:
  "builtFrom loc t \<Longrightarrow> f \<in> set (getRecursiveFiles t) \<Longrightarrow> liesUnder loc f"
proof (induction t arbitrary: loc)
  case (FileTree name fs dirs)
  from FileTree.prems(2) consider "f \<in> set fs" | d where "d \<in> set dirs" "f \<in> set (getRecursiveFiles d)"
    by auto
  then show ?case
  proof cases
    case 1
    then have "childName loc f \<noteq> None" using FileTree.prems(1) by simp
    then show ?thesis by (auto dest!: childName_Some simp: under_path_join)
  next
    case 2
    then have "liesUnder (path_join loc (getDirectoryName d)) f"
      using FileTree.IH[OF 2(1) _ 2(2)] FileTree.prems(1) by simp
    then show ?thesis by (rule under_trans)
  qed
qed

lemma tree_directories_within:
  "(x, n) \<in> set (treeDirectories loc fn t) \<Longrightarrow> within loc x"
proof (induction t arbitrary: loc fn)
  case (FileTree name fs dirs)
  from FileTree.prems consider "x = loc" 
    | d where "d \<in> set dirs" "(x, n) \<in> set (treeDirectories (path_join loc (getDirectoryName d)) (getDirectoryName d) d)"
    by auto
  then show ?case
  proof cases
    case 1
    then show ?thesis by (simp add: within_refl)
  next
    case 2
    from FileTree.IH[OF 2] have "liesUnder loc x" by (rule within_child)
    then show ?thesis by (simp add: within_def)
  qed
qed

lemma sum_list_positive: "0 < sum_list (map g xs) \<Longrightarrow> \<exists>x \<in> set xs. 0 < (g x :: nat)"
  by (induction xs) auto

lemma plan_coverage:
  assumes "builtFrom loc t"
  shows "(0 < copiesOf (succeeded (plannedCalls ctx profile loc fn md t)) p \<longrightarrow> within loc p)
       \<and> copiesOf (succeeded (plannedCalls ctx profile loc fn md t)) p \<le> 1
       \<and> (p \<in> set (getRecursiveFiles t) \<longrightarrow>
            copiesOf (succeeded (plannedCalls ctx profile loc fn md t)) p = 1)
       \<and> (\<forall>n. (p, n) \<in> set (treeDirectories loc fn t) \<and> matchingEndFolderName (rule ctx) n \<noteq> None \<longrightarrow>
            copiesOf (succeeded (plannedCalls ctx profile loc fn md t)) p = 1)"
  using assms
proof (induction t arbitrary: loc fn)
  case (FileTree name fs dirs)
  let ?t = "FileTree name fs dirs"
  let ?cs = "succeeded (plannedCalls ctx profile loc fn md ?t)"
  show ?case
  proof (cases "matchingEndFolderName (rule ctx) fn")
    case (Some m)
    obtain folder destination where m: "m = (folder, destination)" by (cases m)
    have c: "copiesOf ?cs p = (if within loc p then 1 else 0)"
      using Some m by (simp add: copiesOf_def succeeded_def)
    have "within loc p" if "p \<in> set (getRecursiveFiles ?t)"
      using recursive_files_under[OF FileTree.prems that] by (simp add: within_def)
    moreover have "within loc p" if "(p, n) \<in> set (treeDirectories loc fn ?t)" for n
      using tree_directories_within[OF that] .
    ultimately show ?thesis unfolding c by auto
  next
    case None
    let ?child = "\<lambda>d. path_join loc (getDirectoryName d)"
    let ?g = "\<lambda>d. copiesOf (succeeded (plannedCalls ctx profile (?child d) (getDirectoryName d) md d)) p"
    have "distinct fs" using FileTree.prems by simp
    note cf = copiesOf_files[OF this, of "fileLocation ctx profile md"
                "\<lambda>f. path_join (fileLocation ctx profile md f) (basename f)" p]
    have "plannedCalls ctx profile loc fn md ?t =
            concat (map (\<lambda>f. [EnsureDirectory (fileLocation ctx profile md f),
                               CopyFile f (path_join (fileLocation ctx profile md f) (basename f))]) fs)
            @ concat (map (\<lambda>d. plannedCalls ctx profile (?child d) (getDirectoryName d) md d) dirs)"
      (is "_ = ?A @ ?B")
      using None by simp
    moreover have "copiesOf (succeeded ?B) p = sum_list (map ?g dirs)"
      by (rule copiesOf_succeeded_concat)
    ultimately have c0: "copiesOf ?cs p = (if p \<in> set fs then 1 else 0) + sum_list (map ?g dirs)"
      using cf by (simp only: copiesOf_succeeded_append)
    define total where "total = copiesOf ?cs p"
    define S where "S = sum_list (map ?g dirs)"
    define g where "g = ?g"
    have c: "total = (if p \<in> set fs then 1 else 0) + S"
      using c0 by (simp only: total_def S_def)
    have S: "S = sum_list (map g dirs)" by (simp only: S_def g_def)
    have built: "builtFrom (?child d) d" if "d \<in> set dirs" for d
      using FileTree.prems that by simp
    have IH: "(0 < g d \<longrightarrow> within (?child d) p) \<and> g d \<le> 1
               \<and> (p \<in> set (getRecursiveFiles d) \<longrightarrow> g d = 1)
               \<and> (\<forall>n. (p, n) \<in> set (treeDirectories (?child d) (getDirectoryName d) d)
                      \<and> matchingEndFolderName (rule ctx) n \<noteq> None \<longrightarrow> g d = 1)"
      if "d \<in> set dirs" for d
      unfolding g_def by (rule FileTree.IH[OF that built[OF that]])
    have nosep: "CHR ''/'' \<notin> set (getDirectoryName d)" if "d \<in> set dirs" for d
      using FileTree.prems that by simp
    have dist: "distinct dirs" using FileTree.prems by (simp add: distinct_map)
    have inj: "d = d'" if "d \<in> set dirs" "d' \<in> set dirs" "getDirectoryName d = getDirectoryName d'" for d d'
      using FileTree.prems that by (auto simp: distinct_map dest: inj_onD)
    have I1: "within (?child d) p" if "d \<in> set dirs" "0 < g d" for d
      using IH[OF that(1)] that(2) by blast
    have F1: "g d = 0" if "p \<in> set fs" "d \<in> set dirs" for d
    proof (rule ccontr)
      assume "g d \<noteq> 0"
      then have "within (?child d) p" using I1[OF that(2)] by simp
      moreover have "childName loc p \<noteq> None" using FileTree.prems that(1) by simp
      ultimately have "p = ?child d" by (rule file_not_within_sibling[rotated])
      then show False using FileTree.prems that by auto
    qed
    have F2: "g d' = 0" if "d \<in> set dirs" "0 < g d" "d' \<in> set dirs" "d' \<noteq> d" for d d'
    proof (rule ccontr)
      assume "g d' \<noteq> 0"
      then have "within (?child d') p" using I1[OF that(3)] by simp
      from within_siblings[OF I1[OF that(1,2)] this nosep[OF that(1)] nosep[OF that(3)]]
      show False using inj[OF that(1,3)] that(4) by simp
    qed
    have single: "S = g d" if "d \<in> set dirs" "0 < g d" for d
      unfolding S using sum_list_single[OF dist that(1), of g] F2[OF that] by blast
    have zero: "S = 0" if "\<forall>d \<in> set dirs. g d = 0"
      unfolding S using that by (rule sum_list_zero)
    have one: "total = 1" if "d \<in> set dirs" "g d = 1" for d
    proof -
      have "p \<notin> set fs" using F1[OF _ that(1)] that(2) by auto
      then show ?thesis using c single[OF that(1)] that(2) by simp
    qed
    have 1: "within loc p" if "0 < total"
    proof (cases "p \<in> set fs")
      case True
      then have "childName loc p \<noteq> None" using FileTree.prems by simp
      then show ?thesis by (auto dest!: childName_Some simp: within_def under_path_join)
    next
      case False
      then have "0 < sum_list (map g dirs)" using that c S by simp
      then obtain d where "d \<in> set dirs" "0 < g d" using sum_list_positive by blast
      then have "within (?child d) p" by (rule I1)
      then have "liesUnder loc p" by (rule within_child)
      then show ?thesis by (simp add: within_def)
    qed
    have 2: "total \<le> 1"
    proof (cases "p \<in> set fs")
      case True
      then have "S = 0" using F1 zero by blast
      then show ?thesis using c True by simp
    next
      case False
      show ?thesis
      proof (cases "\<exists>d \<in> set dirs. 0 < g d")
        case True
        then obtain d where d: "d \<in> set dirs" "0 < g d" by blast
        have "g d \<le> 1" using IH[OF d(1)] by blast
        then show ?thesis using c False single[OF d] by simp
      next
        case False': False
        then have "S = 0" using zero by simp
        then show ?thesis using c False by simp
      qed
    qed
    have 3: "total = 1" if "p \<in> set (getRecursiveFiles ?t)"
    proof -
      from that consider "p \<in> set fs" | d where "d \<in> set dirs" "p \<in> set (getRecursiveFiles d)"
        by auto
      then show ?thesis
      proof cases
        case 1
        then have "S = 0" using F1 zero by blast
        then show ?thesis using c 1 by simp
      next
        case 2
        then have "g d = 1" using IH[OF 2(1)] by blast
        then show ?thesis using one 2(1) by blast
      qed
    qed
    have 4: "total = 1"
      if "(p, n) \<in> set (treeDirectories loc fn ?t)" "matchingEndFolderName (rule ctx) n \<noteq> None" for n
    proof -
      from that None obtain d where d: "d \<in> set dirs"
        "(p, n) \<in> set (treeDirectories (?child d) (getDirectoryName d) d)"
        by auto
      then have "g d = 1" using IH[OF d(1)] that(2) by blast
      then show ?thesis using one d(1) by blast
    qed
    from 1 2 3 4 show ?thesis unfolding total_def by blast
  qed
qed

section \<open>The folders a run reaches\<close>

text \<open>
  Every folder a run reaches has its calls in the record of a run without failure: the
  two calls of a matched folder, or the two calls of each file of an unmatched one; and
  every call of the record belongs to a folder the run reaches.
\<close>

lemma visits_root: "(location, folderName, tree) \<in> set (visits r location folderName tree)"
  by (cases tree) simp

lemma visits_cases:
  assumes "(loc, fn, t) \<in> set (visits r location folderName (FileTree name fs dirs))"
  obtains (root) "loc = location" "fn = folderName" "t = FileTree name fs dirs"
  | (child) d where "matchingEndFolderName r folderName = None" "d \<in> set dirs"
      "(loc, fn, t) \<in> set (visits r (path_join location (getDirectoryName d)) (getDirectoryName d) d)"
  using assms by (auto split: option.splits)

lemma visits_children:
  "(loc, fn, t) \<in> set (visits r location folderName tree) \<Longrightarrow> matchingEndFolderName r fn = None \<Longrightarrow>
   d \<in> set (getDirectories t) \<Longrightarrow>
   (path_join loc (getDirectoryName d), getDirectoryName d, d) \<in> set (visits r location folderName tree)"
proof (induction tree arbitrary: location folderName)
  case (FileTree name fs dirs)
  from FileTree.prems(1) show ?case
  proof (cases rule: visits_cases)
    case root
    then show ?thesis using FileTree.prems(2,3) visits_root by fastforce
  next
    case (child c)
    from FileTree.IH[OF child(2,3) FileTree.prems(2,3)] child(1,2) show ?thesis by auto
  qed
qed

lemma visits_files:
  "(loc, fn, t) \<in> set (visits r location folderName tree) \<Longrightarrow> f \<in> set (getFiles t) \<Longrightarrow>
   f \<in> set (getRecursiveFiles tree)"
proof (induction tree arbitrary: location folderName)
  case (FileTree name fs dirs)
  from FileTree.prems(1) show ?case
  proof (cases rule: visits_cases)
    case root
    then show ?thesis using FileTree.prems(2) by simp
  next
    case (child c)
    from FileTree.IH[OF child(2,3) FileTree.prems(2)] child(2) show ?thesis by auto
  qed
qed

lemma visits_directories:
  "(loc, fn, t) \<in> set (visits r location folderName tree) \<Longrightarrow>
   (loc, fn) \<in> set (treeDirectories location folderName tree)"
proof (induction tree arbitrary: location folderName)
  case (FileTree name fs dirs)
  from FileTree.prems(1) show ?case
  proof (cases rule: visits_cases)
    case root
    then show ?thesis by simp
  next
    case (child c)
    from FileTree.IH[OF child(2,3)] child(2) show ?thesis by auto
  qed
qed

lemma planned_folder_copy:
  "(loc, fn, t) \<in> set (visits (rule ctx) location folderName tree) \<Longrightarrow>
   matchingEndFolderName (rule ctx) fn = Some (folder, destination) \<Longrightarrow>
   \<exists>pre post. plannedCalls ctx profile location folderName md tree
      = pre @ [EnsureDirectory (endFolderLocation profile fn md destination),
               CopyFolder loc (endFolderLocation profile fn md destination)] @ post"
proof (induction tree arbitrary: location folderName)
  case (FileTree name fs dirs)
  from FileTree.prems(1) show ?case
  proof (cases rule: visits_cases)
    case root
    then have "plannedCalls ctx profile location folderName md (FileTree name fs dirs)
      = [] @ [EnsureDirectory (endFolderLocation profile fn md destination),
               CopyFolder loc (endFolderLocation profile fn md destination)] @ []"
      using FileTree.prems(2) by simp
    then show ?thesis by blast
  next
    case (child c)
    from FileTree.IH[OF child(2,3) FileTree.prems(2)] obtain pre post where
      p: "plannedCalls ctx profile (path_join location (getDirectoryName c)) (getDirectoryName c) md c
            = pre @ [EnsureDirectory (endFolderLocation profile fn md destination),
               CopyFolder loc (endFolderLocation profile fn md destination)] @ post" by blast
    from child(2) obtain ds1 ds2 where ds: "dirs = ds1 @ c # ds2" by (auto dest: split_list)
    let ?g = "\<lambda>d. plannedCalls ctx profile (path_join location (getDirectoryName d)) (getDirectoryName d) md d"
    let ?F = "concat (map (\<lambda>f. [EnsureDirectory (fileLocation ctx profile md f),
                             CopyFile f (path_join (fileLocation ctx profile md f) (basename f))]) fs)"
    have "plannedCalls ctx profile location folderName md (FileTree name fs dirs)
            = (?F @ concat (map ?g ds1) @ pre)
              @ [EnsureDirectory (endFolderLocation profile fn md destination),
                 CopyFolder loc (endFolderLocation profile fn md destination)]
              @ (post @ concat (map ?g ds2))"
      using child(1) ds p by simp
    then show ?thesis by blast
  qed
qed

lemma planned_file_copy:
  "(loc, fn, t) \<in> set (visits (rule ctx) location folderName tree) \<Longrightarrow>
   matchingEndFolderName (rule ctx) fn = None \<Longrightarrow> f \<in> set (getFiles t) \<Longrightarrow>
   \<exists>pre post. plannedCalls ctx profile location folderName md tree
      = pre @ [EnsureDirectory (fileLocation ctx profile md f),
               CopyFile f (path_join (fileLocation ctx profile md f) (basename f))] @ post"
proof (induction tree arbitrary: location folderName)
  case (FileTree name fs dirs)
  let ?g = "\<lambda>d. plannedCalls ctx profile (path_join location (getDirectoryName d)) (getDirectoryName d) md d"
  let ?h = "\<lambda>f. [EnsureDirectory (fileLocation ctx profile md f),
                             CopyFile f (path_join (fileLocation ctx profile md f) (basename f))]"
  from FileTree.prems(1) show ?case
  proof (cases rule: visits_cases)
    case root
    then have "f \<in> set fs" using FileTree.prems(3) by simp
    then obtain f1 f2 where fs: "fs = f1 @ f # f2" by (auto dest: split_list)
    have "plannedCalls ctx profile location folderName md (FileTree name fs dirs)
            = concat (map ?h f1) @ ?h f @ (concat (map ?h f2) @ concat (map ?g dirs))"
      using root FileTree.prems(2) fs by simp
    then show ?thesis by blast
  next
    case (child c)
    from FileTree.IH[OF child(2,3) FileTree.prems(2,3)] obtain pre post where
      p: "?g c = pre @ ?h f @ post" by blast
    from child(2) obtain ds1 ds2 where ds: "dirs = ds1 @ c # ds2" by (auto dest: split_list)
    have "plannedCalls ctx profile location folderName md (FileTree name fs dirs)
            = (concat (map ?h fs) @ concat (map ?g ds1) @ pre) @ ?h f @ (post @ concat (map ?g ds2))"
      using child(1) ds p by simp
    then show ?thesis by blast
  qed
qed

lemma covered_once:
  assumes "copiesOf cs p \<le> 1" "(c1, ok1) \<in> set cs" "covers c1 p" "(c2, ok2) \<in> set cs" "covers c2 p"
  shows "c1 = c2"
proof -
  let ?xs = "filter (\<lambda>(c, ok). covers c p) cs"
  have m: "(c1, ok1) \<in> set ?xs" "(c2, ok2) \<in> set ?xs" using assms by auto
  have "length ?xs \<le> 1" using assms(1) by (simp add: copiesOf_def)
  moreover have "?xs \<noteq> []" using m(1) by (metis empty_iff list.set(1))
  ultimately obtain x where x: "?xs = [x]" by (cases ?xs) auto
  from m show ?thesis unfolding x by auto
qed

lemma visited_matched_folder:
  assumes run: "resolveBepInExTree ctx profile location folderName md tree w = (None, w1)"
    and v: "(loc, fn, t) \<in> set (visits (rule ctx) location folderName tree)"
    and m: "matchingEndFolderName (rule ctx) fn = Some (folder, destination)"
  shows "\<exists>pre post. newCalls w w1
           = pre @ [(EnsureDirectory (endFolderLocation profile fn md destination), True),
                    (CopyFolder loc (endFolderLocation profile fn md destination), True)] @ post"
proof -
  from planned_folder_copy[OF v m, of profile md] obtain pre post where
    "plannedCalls ctx profile location folderName md tree
      = pre @ [EnsureDirectory (endFolderLocation profile fn md destination),
               CopyFolder loc (endFolderLocation profile fn md destination)] @ post" by blast
  then have "newCalls w w1
      = succeeded pre @ [(EnsureDirectory (endFolderLocation profile fn md destination), True),
               (CopyFolder loc (endFolderLocation profile fn md destination), True)] @ succeeded post"
    using resolveBepInExTree_plan[OF run] by (simp add: succeeded_def)
  then show ?thesis by blast
qed

lemma visited_loose_file:
  assumes run: "resolveBepInExTree ctx profile location folderName md tree w = (None, w1)"
    and v: "(loc, fn, t) \<in> set (visits (rule ctx) location folderName tree)"
    and m: "matchingEndFolderName (rule ctx) fn = None"
    and f: "f \<in> set (getFiles t)"
  shows "\<exists>pre post. newCalls w w1
           = pre @ [(EnsureDirectory (fileLocation ctx profile md f), True),
                    (CopyFile f (path_join (fileLocation ctx profile md f) (basename f)), True)] @ post"
proof -
  from planned_file_copy[OF v m f, of profile md] obtain pre post where
    "plannedCalls ctx profile location folderName md tree
      = pre @ [EnsureDirectory (fileLocation ctx profile md f),
               CopyFile f (path_join (fileLocation ctx profile md f) (basename f))] @ post" by blast
  then have "newCalls w w1
      = succeeded pre @ [(EnsureDirectory (fileLocation ctx profile md f), True),
               (CopyFile f (path_join (fileLocation ctx profile md f) (basename f)), True)] @ succeeded post"
    using resolveBepInExTree_plan[OF run] by (simp add: succeeded_def)
  then show ?thesis by blast
qed

lemma run_covered_once:
  assumes run: "resolveBepInExTree ctx profile location folderName md tree w = (None, w1)"
    and built: "builtFrom location tree"
    and "(c1, ok1) \<in> set (newCalls w w1)" "covers c1 p"
    and "(c2, ok2) \<in> set (newCalls w w1)" "covers c2 p"
  shows "c1 = c2"
proof -
  have "copiesOf (newCalls w w1) p \<le> 1"
    using plan_coverage[OF built, of ctx profile folderName md p] resolveBepInExTree_plan[OF run] by simp
  from covered_once[OF this assms(3-6)] show ?thesis .
qed

lemma planned_calls_origin:
  "c \<in> set (plannedCalls ctx profile location folderName md tree) \<Longrightarrow>
   \<exists>(loc, fn, t) \<in> set (visits (rule ctx) location folderName tree).
     (case matchingEndFolderName (rule ctx) fn of
        Some (folder, destination) \<Rightarrow>
          c = EnsureDirectory (endFolderLocation profile fn md destination)
          \<or> c = CopyFolder loc (endFolderLocation profile fn md destination)
      | None \<Rightarrow>
          (\<exists>f \<in> set (getFiles t).
             c = EnsureDirectory (fileLocation ctx profile md f)
             \<or> c = CopyFile f (path_join (fileLocation ctx profile md f) (basename f))))"
proof (induction tree arbitrary: location folderName)
  case (FileTree name fs dirs)
  let ?t = "FileTree name fs dirs"
  show ?case
  proof (cases "matchingEndFolderName (rule ctx) folderName")
    case (Some a)
    obtain folder destination where a: "a = (folder, destination)" by (cases a)
    have "(location, folderName, ?t) \<in> set (visits (rule ctx) location folderName ?t)"
      by (rule visits_root)
    moreover have "c = EnsureDirectory (endFolderLocation profile folderName md destination)
          \<or> c = CopyFolder location (endFolderLocation profile folderName md destination)"
      using FileTree.prems Some a by auto
    ultimately show ?thesis using Some a by (intro bexI[of _ "(location, folderName, ?t)"]) auto
  next
    case None
    from FileTree.prems None consider
        (here) f where "f \<in> set fs" "c = EnsureDirectory (fileLocation ctx profile md f)
             \<or> c = CopyFile f (path_join (fileLocation ctx profile md f) (basename f))"
      | (below) d where "d \<in> set dirs"
          "c \<in> set (plannedCalls ctx profile (path_join location (getDirectoryName d)) (getDirectoryName d) md d)"
      by auto
    then show ?thesis
    proof cases
      case here
      have "(location, folderName, ?t) \<in> set (visits (rule ctx) location folderName ?t)"
        by (rule visits_root)
      then show ?thesis using here None by (intro bexI[of _ "(location, folderName, ?t)"]) auto
    next
      case (below d)
      from FileTree.IH[OF below] obtain x where
        x: "x \<in> set (visits (rule ctx) (path_join location (getDirectoryName d)) (getDirectoryName d) d)"
        and p: "(case x of (loc, fn, t) \<Rightarrow>
          (case matchingEndFolderName (rule ctx) fn of
        Some (folder, destination) \<Rightarrow>
          c = EnsureDirectory (endFolderLocation profile fn md destination)
          \<or> c = CopyFolder loc (endFolderLocation profile fn md destination)
      | None \<Rightarrow>
          (\<exists>f \<in> set (getFiles t).
             c = EnsureDirectory (fileLocation ctx profile md f)
             \<or> c = CopyFile f (path_join (fileLocation ctx profile md f) (basename f)))))" by blast
      have "x \<in> set (visits (rule ctx) location folderName ?t)"
        using x below(1) None by auto
      with p show ?thesis by blast
    qed
  qed
qed

lemma run_calls_origin:
  assumes run: "resolveBepInExTree ctx profile location folderName md tree w = (None, w1)"
    and c: "(c, ok) \<in> set (newCalls w w1)"
  shows "ok \<and> (\<exists>(loc, fn, t) \<in> set (visits (rule ctx) location folderName tree).
     (case matchingEndFolderName (rule ctx) fn of
        Some (folder, destination) \<Rightarrow>
          c = EnsureDirectory (endFolderLocation profile fn md destination)
          \<or> c = CopyFolder loc (endFolderLocation profile fn md destination)
      | None \<Rightarrow>
          (\<exists>f \<in> set (getFiles t).
             c = EnsureDirectory (fileLocation ctx profile md f)
             \<or> c = CopyFile f (path_join (fileLocation ctx profile md f) (basename f)))))"
proof -
  from c have "ok" "c \<in> set (plannedCalls ctx profile location folderName md tree)"
    unfolding resolveBepInExTree_plan[OF run] by (auto simp: succeeded_def)
  with planned_calls_origin[of c ctx profile location folderName md tree] show ?thesis by blast
qed

section \<open>The mode toggle on one file\<close>

text \<open>
  Claim C3, as amended. For a file whose lower-cased name ends with a recognised
  extension, disabling issues exactly one rename, to the name with \<open>.old\<close> appended, and
  enabling that new name issues exactly one rename, back to the original name. In the
  other direction, for a file whose lower-cased name ends with a recognised extension
  followed by \<open>.old\<close> and whose own name ends with the lower-case \<open>.old\<close>, enabling
  issues exactly one rename, to the name without its last four characters, and disabling
  that name issues exactly one rename, back to the original name.
\<close>

theorem toggle_round_trip:
  "((\<exists>ext \<in> set modModeExtensions. endsWith (toLowerCase file) ext) \<longrightarrow>
      modeRenames DISABLED file = [(file, file @ ''.old'')]
      \<and> modeRenames ENABLED (file @ ''.old'') = [(file @ ''.old'', file)])
   \<and> ((\<exists>ext \<in> set modModeExtensions. endsWith (toLowerCase g) (ext @ ''.old''))
        \<and> endsWith g ''.old'' \<longrightarrow>
      modeRenames ENABLED g = [(g, take (length g - 4) g)]
      \<and> modeRenames DISABLED (take (length g - 4) g) = [(take (length g - 4) g, g)])"
proof (intro conjI impI)
  assume "\<exists>ext \<in> set modModeExtensions. endsWith (toLowerCase file) ext"
  then obtain e where e: "e \<in> set modModeExtensions" "endsWith (toLowerCase file) e" by blast
  show "modeRenames DISABLED file = [(file, file @ ''.old'')]"
    using e by (rule modeRenames_disabled_recognized)
  have "endsWith (toLowerCase (file @ ''.old'')) (e @ ''.old'')"
    using e(2) by (simp add: endsWith_suffix toLowerCase_append toLowerCase_old)
  from modeRenames_enabled_recognized[OF e(1) this]
  show "modeRenames ENABLED (file @ ''.old'') = [(file @ ''.old'', file)]" by simp
next
  assume a: "(\<exists>ext \<in> set modModeExtensions. endsWith (toLowerCase g) (ext @ ''.old''))
        \<and> endsWith g ''.old''"
  then obtain e where e: "e \<in> set modModeExtensions" "endsWith (toLowerCase g) (e @ ''.old'')"
    by blast
  show "modeRenames ENABLED g = [(g, take (length g - 4) g)]"
    using e by (rule modeRenames_enabled_recognized)
  note sp = lower_split_old[OF e(2)[unfolded endsWith_suffix]]
  have "drop (length g - 4) g = ''.old''" using a by (simp add: endsWith_def eval_nat_numeral)
  then have g: "take (length g - 4) g @ ''.old'' = g" by (metis append_take_drop_id)
  have "endsWith (toLowerCase (take (length g - 4) g)) e"
    using sp(2) by (simp add: endsWith_suffix)
  from modeRenames_disabled_recognized[OF e(1) this] g
  show "modeRenames DISABLED (take (length g - 4) g) = [(take (length g - 4) g, g)]" by simp
qed

theorem toggle_round_trip_witness:
  "(\<exists>ext \<in> set modModeExtensions. endsWith (toLowerCase ''/p/BepInEx/plugins/Foo/Foo.DLL'') ext)
   \<and> modeRenames DISABLED ''/p/BepInEx/plugins/Foo/Foo.DLL''
       = [(''/p/BepInEx/plugins/Foo/Foo.DLL'', ''/p/BepInEx/plugins/Foo/Foo.DLL.old'')]
   \<and> modeRenames ENABLED ''/p/BepInEx/plugins/Foo/Foo.DLL.old''
       = [(''/p/BepInEx/plugins/Foo/Foo.DLL.old'', ''/p/BepInEx/plugins/Foo/Foo.DLL'')]
   \<and> (\<exists>ext \<in> set modModeExtensions. endsWith (toLowerCase ''/p/x/a.Dll.old'') (ext @ ''.old''))
   \<and> endsWith ''/p/x/a.Dll.old'' ''.old''
   \<and> modeRenames ENABLED ''/p/x/a.Dll.old'' = [(''/p/x/a.Dll.old'', ''/p/x/a.Dll'')]
   \<and> modeRenames DISABLED ''/p/x/a.Dll'' = [(''/p/x/a.Dll'', ''/p/x/a.Dll.old'')]"
proof -
  have h1: "\<exists>ext \<in> set modModeExtensions. endsWith (toLowerCase ''/p/BepInEx/plugins/Foo/Foo.DLL'') ext"
    by code_simp
  have h2: "(\<exists>ext \<in> set modModeExtensions. endsWith (toLowerCase ''/p/x/a.Dll.old'') (ext @ ''.old''))
              \<and> endsWith ''/p/x/a.Dll.old'' ''.old''"
    by code_simp
  from toggle_round_trip[of "''/p/BepInEx/plugins/Foo/Foo.DLL''" "''/p/x/a.Dll.old''"] h1 h2
  show ?thesis by simp
qed

text \<open>
  The claim as it is stated fails in its second half. Enabling \<open>Foo.dll.OLD\<close> renames it
  to \<open>Foo.dll\<close>, and disabling \<open>Foo.dll\<close> renames it to \<open>Foo.dll.old\<close>, which is not the
  name the file had; and on a file with a bare recognised extension enabling does
  nothing, so that enabling and then disabling \<open>Foo.dll\<close> ends at \<open>Foo.dll.old\<close>.
\<close>

theorem toggle_round_trip_counterexample:
  "modeRenames ENABLED ''/p/BepInEx/plugins/Foo/Foo.dll.OLD''
       = [(''/p/BepInEx/plugins/Foo/Foo.dll.OLD'', ''/p/BepInEx/plugins/Foo/Foo.dll'')]
   \<and> modeRenames ENABLED ''/p/BepInEx/plugins/Foo/Foo.dll'' = []
   \<and> modeRenames DISABLED ''/p/BepInEx/plugins/Foo/Foo.dll''
       = [(''/p/BepInEx/plugins/Foo/Foo.dll'', ''/p/BepInEx/plugins/Foo/Foo.dll.old'')]
   \<and> ''/p/BepInEx/plugins/Foo/Foo.dll.old'' \<noteq> ''/p/BepInEx/plugins/Foo/Foo.dll.OLD''
   \<and> ''/p/BepInEx/plugins/Foo/Foo.dll.old'' \<noteq> ''/p/BepInEx/plugins/Foo/Foo.dll''"
  by code_simp

text \<open>
  Claim C4. Disabling a file whose lower-cased name ends with a recognised extension
  followed by \<open>.old\<close> makes no call to the file system and returns without an error, and
  so does enabling a file whose lower-cased name does not end with a recognised extension
  followed by \<open>.old\<close>: the world, with its record of calls, is the one before.
\<close>

theorem toggle_idempotent_per_file:
  "((\<exists>ext \<in> set modModeExtensions. endsWith (toLowerCase file) (ext @ ''.old'')) \<longrightarrow>
      applyModeToFile ctx DISABLED file w = (None, w))
   \<and> (\<not> (\<exists>ext \<in> set modModeExtensions. endsWith (toLowerCase file) (ext @ ''.old'')) \<longrightarrow>
      applyModeToFile ctx ENABLED file w = (None, w))"
  using modeRenames_disabled_none[of "file"] modeRenames_enabled_none[of "file"]
  by (auto simp: applyModeToFile_def)

theorem toggle_idempotent_per_file_witness:
  "(\<exists>ext \<in> set modModeExtensions.
       endsWith (toLowerCase ''/p/BepInEx/plugins/Foo/Foo.dll.old'') (ext @ ''.old''))
   \<and> applyModeToFile exampleInstaller DISABLED ''/p/BepInEx/plugins/Foo/Foo.dll.old'' exampleWorld
       = (None, exampleWorld)
   \<and> \<not> (\<exists>ext \<in> set modModeExtensions.
       endsWith (toLowerCase ''/p/BepInEx/plugins/Foo/Foo.dll'') (ext @ ''.old''))
   \<and> applyModeToFile exampleInstaller ENABLED ''/p/BepInEx/plugins/Foo/Foo.dll'' exampleWorld
       = (None, exampleWorld)"
proof -
  have h1: "\<exists>ext \<in> set modModeExtensions.
       endsWith (toLowerCase ''/p/BepInEx/plugins/Foo/Foo.dll.old'') (ext @ ''.old'')"
    by code_simp
  have h2: "\<not> (\<exists>ext \<in> set modModeExtensions.
       endsWith (toLowerCase ''/p/BepInEx/plugins/Foo/Foo.dll'') (ext @ ''.old''))"
    by code_simp
  from toggle_idempotent_per_file[of "''/p/BepInEx/plugins/Foo/Foo.dll.old''" exampleInstaller exampleWorld]
       toggle_idempotent_per_file[of "''/p/BepInEx/plugins/Foo/Foo.dll''" exampleInstaller exampleWorld]
       h1 h2
  show ?thesis by blast
qed

section \<open>Uninstalling\<close>

text \<open>
  Claim C7. When the mod's name matches no loader-variant package name of the active
  game, \<open>uninstallMod\<close> changes nothing outside the profile's BepInEx directory: every
  path that does not lie below \<open><profile>/BepInEx\<close> holds after the call what it held
  before, whether the call succeeds or fails. In particular every entry directly at the
  profile root is unchanged.
\<close>

theorem uninstall_regular_mod_keeps_root:
  assumes "findVariant ctx md = None"
  shows "(\<forall>p. \<not> liesUnder (path_join (getPathOfProfile profile) ''BepInEx'') p \<longrightarrow>
            map_of (store (snd (uninstallMod ctx md profile w))) p = map_of (store w) p)
       \<and> (\<forall>p. childName (getPathOfProfile profile) p \<noteq> None \<longrightarrow>
            map_of (store (snd (uninstallMod ctx md profile w))) p = map_of (store w) p)"
proof -
  have u: "uninstallMod ctx md profile w = managedSubfolderPass md profile w"
    using assms by (simp add: uninstallMod_def loaderRootPass_def)
  show ?thesis
    unfolding u using managedSubfolderPass_frame root_entry_outside_BepInEx by auto
qed

theorem uninstall_regular_mod_keeps_root_witness:
  "findVariant exampleInstaller exampleMod = None
   \<and> childName (getPathOfProfile exampleProfile) ''/p/doorstop.ini'' \<noteq> None
   \<and> \<not> liesUnder (path_join (getPathOfProfile exampleProfile) ''BepInEx'') ''/p/doorstop.ini''
   \<and> map_of (store (snd (uninstallMod exampleInstaller exampleMod exampleProfile exampleWorld)))
         ''/p/doorstop.ini'' = Some (FileNode ''d'')
   \<and> map_of (store (snd (uninstallMod exampleInstaller exampleMod exampleProfile exampleWorld)))
         ''/p/BepInEx/plugins/Foo/Foo.dll'' = None"
proof -
  have h1: "findVariant exampleInstaller exampleMod = None" by code_simp
  have h2: "childName (getPathOfProfile exampleProfile) ''/p/doorstop.ini'' \<noteq> None" by code_simp
  have h3: "\<not> liesUnder (path_join (getPathOfProfile exampleProfile) ''BepInEx'') ''/p/doorstop.ini''"
    by code_simp
  have h4: "map_of (store exampleWorld) ''/p/doorstop.ini'' = Some (FileNode ''d'')" by code_simp
  have h5: "map_of (store (snd (uninstallMod exampleInstaller exampleMod exampleProfile exampleWorld)))
         ''/p/BepInEx/plugins/Foo/Foo.dll'' = None" by code_simp
  from uninstall_regular_mod_keeps_root[OF h1, of exampleProfile exampleWorld] h2 h4
  have "map_of (store (snd (uninstallMod exampleInstaller exampleMod exampleProfile exampleWorld)))
         ''/p/doorstop.ini'' = Some (FileNode ''d'')" by auto
  then show ?thesis using h1 h2 h3 h5 by blast
qed

text \<open>
  Claim C8, as amended. When the mod's name matches, case-insensitively, a loader-variant
  package name of the active game and \<open>uninstallMod\<close> returns no error, then every file
  directly at the profile root whose lower-cased name is not \<open>mods.yml\<close> is gone, and every
  entry directly at the profile root whose lower-cased name is \<open>mods.yml\<close> holds what it
  held before.
\<close>

theorem uninstall_loader_variant_root_files:
  assumes v: "findVariant ctx md \<noteq> None" and ok: "fst (uninstallMod ctx md profile w) = None"
  shows "\<forall>p n. childName (getPathOfProfile profile) p = Some n \<longrightarrow>
           (toLowerCase n \<noteq> ''mods.yml'' \<and> fileAt (store w) p \<longrightarrow>
              map_of (store (snd (uninstallMod ctx md profile w))) p = None)
         \<and> (toLowerCase n = ''mods.yml'' \<longrightarrow>
              map_of (store (snd (uninstallMod ctx md profile w))) p = map_of (store w) p)"
proof (intro allI impI)
  fix p n
  let ?root = "getPathOfProfile profile"
  assume cn: "childName ?root p = Some n"
  then have pn: "p = path_join ?root n" by (auto dest: childName_Some)
  obtain r1 w1 where l: "loaderRootPass ctx md profile w = (r1, w1)" by fastforce
  have r1: "r1 = None" using ok l by (auto simp: uninstallMod_def split: option.splits)
  then have u: "uninstallMod ctx md profile w = managedSubfolderPass md profile w1"
    using l by (simp add: uninstallMod_def)
  have pass2: "map_of (store (snd (uninstallMod ctx md profile w))) p = map_of (store w1) p"
    unfolding u using managedSubfolderPass_frame root_entry_outside_BepInEx[OF cn] by simp
  obtain rr wr where rd: "readdir ?root w = (rr, wr)" by fastforce
  from l r1 v rd obtain names where rr: "rr = Inr names"
    by (auto simp: loaderRootPass_def split: sum.splits)
  note rres = readdir_result[OF rd, unfolded rr, simplified]
  obtain rd2 wd where d: "deleteRootFiles ?root names wr = (rd2, wd)" by fastforce
  from l r1 v rd rr d obtain u' where dres: "rd2 = Inr u'" "wd = w1"
    by (auto simp: loaderRootPass_def split: sum.splits)
  show "(toLowerCase n \<noteq> ''mods.yml'' \<and> fileAt (store w) p \<longrightarrow>
              map_of (store (snd (uninstallMod ctx md profile w))) p = None)
         \<and> (toLowerCase n = ''mods.yml'' \<longrightarrow>
              map_of (store (snd (uninstallMod ctx md profile w))) p = map_of (store w) p)"
  proof (intro conjI impI)
    assume a: "toLowerCase n \<noteq> ''mods.yml'' \<and> fileAt (store w) p"
    then obtain v where "map_of (store w) p = Some v" by (auto simp: fileAt_def split: option.splits)
    then have "n \<in> set names" using names_listed cn rres by metis
    then have "\<not> fileAt (store w1) p"
      using deleteRootFiles_deleted[of ?root names wr u' n] d dres a pn by simp
    moreover have "map_of (store w1) p = None \<or> map_of (store w1) p = map_of (store w) p"
      using deleteRootFiles_monotone[of ?root names wr p] d dres rres by simp
    ultimately have "map_of (store w1) p = None" using a by (auto simp: fileAt_def)
    then show "map_of (store (snd (uninstallMod ctx md profile w))) p = None" using pass2 by simp
  next
    assume "toLowerCase n = ''mods.yml''"
    then have "map_of (store (snd (loaderRootPass ctx md profile w))) p = map_of (store w) p"
      using loaderRootPass_frame[of profile p w ctx md] cn by simp
    then show "map_of (store (snd (uninstallMod ctx md profile w))) p = map_of (store w) p"
      using pass2 l by simp
  qed
qed

theorem uninstall_loader_variant_root_files_witness:
  "findVariant exampleInstaller exampleLoader \<noteq> None
   \<and> fst (uninstallMod exampleInstaller exampleLoader exampleProfile exampleWorld) = None
   \<and> childName (getPathOfProfile exampleProfile) ''/p/doorstop.ini'' = Some ''doorstop.ini''
   \<and> toLowerCase ''doorstop.ini'' \<noteq> ''mods.yml''
   \<and> fileAt (store exampleWorld) ''/p/doorstop.ini''
   \<and> map_of (store (snd (uninstallMod exampleInstaller exampleLoader exampleProfile exampleWorld)))
        ''/p/doorstop.ini'' = None
   \<and> childName (getPathOfProfile exampleProfile) ''/p/mods.yml'' = Some ''mods.yml''
   \<and> map_of (store (snd (uninstallMod exampleInstaller exampleLoader exampleProfile exampleWorld)))
        ''/p/mods.yml'' = Some (FileNode ''m'')"
proof -
  have h1: "findVariant exampleInstaller exampleLoader \<noteq> None" by code_simp
  have h2: "fst (uninstallMod exampleInstaller exampleLoader exampleProfile exampleWorld) = None"
    by code_simp
  have h3: "childName (getPathOfProfile exampleProfile) ''/p/doorstop.ini'' = Some ''doorstop.ini''"
    by code_simp
  have h4: "toLowerCase ''doorstop.ini'' \<noteq> ''mods.yml''" by code_simp
  have h5: "fileAt (store exampleWorld) ''/p/doorstop.ini''" by code_simp
  have h6: "childName (getPathOfProfile exampleProfile) ''/p/mods.yml'' = Some ''mods.yml''"
    by code_simp
  have h7: "toLowerCase ''mods.yml'' = ''mods.yml''" by code_simp
  have h8: "map_of (store exampleWorld) ''/p/mods.yml'' = Some (FileNode ''m'')" by code_simp
  note t = uninstall_loader_variant_root_files[OF h1 h2]
  from t h3 h4 h5
  have a: "map_of (store (snd (uninstallMod exampleInstaller exampleLoader exampleProfile exampleWorld)))
        ''/p/doorstop.ini'' = None" by blast
  from t h6 h7 h8
  have b: "map_of (store (snd (uninstallMod exampleInstaller exampleLoader exampleProfile exampleWorld)))
        ''/p/mods.yml'' = Some (FileNode ''m'')" by metis
  from h1 h2 h3 h4 h5 a h6 b show ?thesis by blast
qed

text \<open>
  The claim as it is stated fails where the root holds a file whose name differs from
  \<open>mods.yml\<close> in letter case only: uninstalling the loader pack succeeds, and the file
  \<open>MODS.YML\<close>, which is not the file \<open>mods.yml\<close>, is still there.
\<close>

theorem uninstall_loader_variant_root_files_counterexample:
  "findVariant exampleInstaller exampleLoader \<noteq> None
   \<and> fst (uninstallMod exampleInstaller exampleLoader exampleProfile exampleWorld) = None
   \<and> childName (getPathOfProfile exampleProfile) ''/p/MODS.YML'' = Some ''MODS.YML''
   \<and> ''MODS.YML'' \<noteq> ''mods.yml''
   \<and> map_of (store exampleWorld) ''/p/MODS.YML'' = Some (FileNode ''M'')
   \<and> map_of (store (snd (uninstallMod exampleInstaller exampleLoader exampleProfile exampleWorld)))
        ''/p/MODS.YML'' = Some (FileNode ''M'')"
  by code_simp

text \<open>
  Claim C10. The loader-root pass of \<open>uninstallMod\<close> leaves every directory directly at
  the profile root in place, with everything below it, for every mod: such a path is
  still a directory after the pass, and every path below it holds what it held before.
\<close>

theorem loader_root_pass_keeps_directories:
  "\<forall>p. childName (getPathOfProfile profile) p \<noteq> None \<and> map_of (store w) p = Some DirNode \<longrightarrow>
        map_of (store (snd (loaderRootPass ctx md profile w))) p = Some DirNode
      \<and> (\<forall>q. liesUnder p q \<longrightarrow> map_of (store (snd (loaderRootPass ctx md profile w))) q = map_of (store w) q)"
proof (intro allI impI conjI)
  fix p assume p: "childName (getPathOfProfile profile) p \<noteq> None \<and> map_of (store w) p = Some DirNode"
  then have "\<not> fileAt (store w) p" by (simp add: fileAt_def)
  then show "map_of (store (snd (loaderRootPass ctx md profile w))) p = Some DirNode"
    using loaderRootPass_frame[of profile p w ctx md] p by simp
  fix q assume "liesUnder p q"
  then have "childName (getPathOfProfile profile) q = None"
    using p below_root_entry by auto
  then show "map_of (store (snd (loaderRootPass ctx md profile w))) q = map_of (store w) q"
    using loaderRootPass_frame[of profile q w ctx md] by simp
qed

theorem loader_root_pass_keeps_directories_witness:
  "childName (getPathOfProfile exampleProfile) ''/p/BepInEx'' \<noteq> None
   \<and> map_of (store exampleWorld) ''/p/BepInEx'' = Some DirNode
   \<and> map_of (store (snd (loaderRootPass exampleInstaller exampleLoader exampleProfile exampleWorld)))
        ''/p/BepInEx'' = Some DirNode
   \<and> liesUnder ''/p/BepInEx'' ''/p/BepInEx/plugins/Foo/Foo.dll''
   \<and> map_of (store (snd (loaderRootPass exampleInstaller exampleLoader exampleProfile exampleWorld)))
        ''/p/BepInEx/plugins/Foo/Foo.dll'' = Some (FileNode ''x'')
   \<and> map_of (store (snd (loaderRootPass exampleInstaller exampleLoader exampleProfile exampleWorld)))
        ''/p/doorstop.ini'' = None"
proof -
  have h1: "childName (getPathOfProfile exampleProfile) ''/p/BepInEx'' \<noteq> None" by code_simp
  have h2: "map_of (store exampleWorld) ''/p/BepInEx'' = Some DirNode" by code_simp
  have h3: "liesUnder ''/p/BepInEx'' ''/p/BepInEx/plugins/Foo/Foo.dll''" by code_simp
  have h4: "map_of (store exampleWorld) ''/p/BepInEx/plugins/Foo/Foo.dll'' = Some (FileNode ''x'')"
    by code_simp
  have h5: "map_of (store (snd (loaderRootPass exampleInstaller exampleLoader exampleProfile exampleWorld)))
        ''/p/doorstop.ini'' = None" by code_simp
  note t = loader_root_pass_keeps_directories[of exampleProfile exampleWorld exampleInstaller exampleLoader]
  from t h1 h2 have a: "map_of (store (snd (loaderRootPass exampleInstaller exampleLoader exampleProfile exampleWorld)))
        ''/p/BepInEx'' = Some DirNode" by blast
  from t h1 h2 h3 h4 have b: "map_of (store (snd (loaderRootPass exampleInstaller exampleLoader exampleProfile exampleWorld)))
        ''/p/BepInEx/plugins/Foo/Foo.dll'' = Some (FileNode ''x'')" by metis
  from h1 h2 a h3 b h5 show ?thesis by blast
qed

section \<open>Installing\<close>

text \<open>
  Claim C2. Let the tree be a snapshot of its location and let \<open>resolveBepInExTree\<close>
  return no error. Then every file of the tree, at any depth, is covered by exactly one of
  the copy calls the run made (its own file copy, or the one folder copy of a directory
  above it); every directory of the tree is covered by at most one folder copy, and by
  exactly one when its name matches a rule key case-insensitively. Every folder the run
  reaches is handled in one of two ways. If its name matches a rule key, the run copied
  the folder, by one folder copy, to the destination the rule gives, and no other copy
  call of the run covers anything at or below it: the folder is not looked into. If its
  name matches no rule key, each of its files was copied by a file copy of its own, which
  is the only copy call that covers the file, and each of its subdirectories is reached in
  turn, at the location joined with the subdirectory's name and with that name as the
  folder name. Every call the run made returned and is a call for a folder the run
  reaches: the directory and the folder copy of a matched folder, or the directory and the
  file copy of a file of an unmatched folder. And when the name of the folder at hand
  matches a rule key, the result does not depend on what the tree holds.
\<close>

theorem resolve_handles_each_once:
  assumes paths: "normalisedPaths ctx profile md"
    and built: "builtFrom location tree"
    and ok: "fst (resolveBepInExTree ctx profile location folderName md tree w) = None"
    and cs: "cs = newCalls w (snd (resolveBepInExTree ctx profile location folderName md tree w))"
  shows "(\<forall>f \<in> set (getRecursiveFiles tree). copiesOf cs f = 1)
       \<and> (\<forall>(d, n) \<in> set (treeDirectories location folderName tree).
            copiesOf cs d \<le> 1 \<and> (matchingEndFolderName (rule ctx) n \<noteq> None \<longrightarrow> copiesOf cs d = 1))
       \<and> (\<forall>(loc, fn, t) \<in> set (visits (rule ctx) location folderName tree).
            (case matchingEndFolderName (rule ctx) fn of
               Some (folder, destination) \<Rightarrow>
                 (CopyFolder loc (endFolderLocation profile fn md destination), True) \<in> set cs
                 \<and> (\<forall>c r p. (c, r) \<in> set cs \<and> covers c p \<and> within loc p \<longrightarrow>
                        c = CopyFolder loc (endFolderLocation profile fn md destination))
             | None \<Rightarrow>
                 (\<forall>f \<in> set (getFiles t).
                    (CopyFile f (path_join (fileLocation ctx profile md f) (basename f)), True) \<in> set cs
                    \<and> (\<forall>c r. (c, r) \<in> set cs \<and> covers c f \<longrightarrow>
                           c = CopyFile f (path_join (fileLocation ctx profile md f) (basename f))))
                 \<and> (\<forall>d \<in> set (getDirectories t).
                      (path_join loc (getDirectoryName d), getDirectoryName d, d)
                        \<in> set (visits (rule ctx) location folderName tree))))
       \<and> (\<forall>(c, r) \<in> set cs.
            r \<and> (\<exists>(loc, fn, t) \<in> set (visits (rule ctx) location folderName tree).
                 (case matchingEndFolderName (rule ctx) fn of
                    Some (folder, destination) \<Rightarrow>
                      c = EnsureDirectory (endFolderLocation profile fn md destination)
                      \<or> c = CopyFolder loc (endFolderLocation profile fn md destination)
                  | None \<Rightarrow>
                      (\<exists>f \<in> set (getFiles t).
                         c = EnsureDirectory (fileLocation ctx profile md f)
                         \<or> c = CopyFile f (path_join (fileLocation ctx profile md f) (basename f))))))
       \<and> (matchingEndFolderName (rule ctx) folderName \<noteq> None \<longrightarrow>
            (\<forall>other. resolveBepInExTree ctx profile location folderName md other w
                     = resolveBepInExTree ctx profile location folderName md tree w))"
proof -
  obtain w1 where r: "resolveBepInExTree ctx profile location folderName md tree w = (None, w1)"
    using ok by (cases "resolveBepInExTree ctx profile location folderName md tree w") auto
  have c1: "cs = newCalls w w1" using cs r by simp
  have n: "cs = succeeded (plannedCalls ctx profile location folderName md tree)"
    using resolveBepInExTree_plan[OF r] c1 by simp
  note cov = plan_coverage[OF built, of ctx profile folderName md]
  note atmost = cov[THEN conjunct2, THEN conjunct1]
  note files = cov[THEN conjunct2, THEN conjunct2, THEN conjunct1, rule_format]
  note folders = cov[THEN conjunct2, THEN conjunct2, THEN conjunct2, rule_format]
  have A: "\<forall>f \<in> set (getRecursiveFiles tree). copiesOf cs f = 1"
    unfolding n using files by blast
  have B: "\<forall>(d, n) \<in> set (treeDirectories location folderName tree).
            copiesOf cs d \<le> 1 \<and> (matchingEndFolderName (rule ctx) n \<noteq> None \<longrightarrow> copiesOf cs d = 1)"
    unfolding n
  proof (intro ballI, clarify, intro conjI impI)
    fix d k
    show "copiesOf (succeeded (plannedCalls ctx profile location folderName md tree)) d \<le> 1"
      by (rule atmost)
    assume "(d, k) \<in> set (treeDirectories location folderName tree)"
      and "matchingEndFolderName (rule ctx) k \<noteq> None"
    then show "copiesOf (succeeded (plannedCalls ctx profile location folderName md tree)) d = 1"
      using folders by blast
  qed
  have C: "(case matchingEndFolderName (rule ctx) fn of
               Some (folder, destination) \<Rightarrow>
                 (CopyFolder loc (endFolderLocation profile fn md destination), True) \<in> set cs
                 \<and> (\<forall>c r p. (c, r) \<in> set cs \<and> covers c p \<and> within loc p \<longrightarrow>
                        c = CopyFolder loc (endFolderLocation profile fn md destination))
             | None \<Rightarrow>
                 (\<forall>f \<in> set (getFiles t).
                    (CopyFile f (path_join (fileLocation ctx profile md f) (basename f)), True) \<in> set cs
                    \<and> (\<forall>c r. (c, r) \<in> set cs \<and> covers c f \<longrightarrow>
                           c = CopyFile f (path_join (fileLocation ctx profile md f) (basename f))))
                 \<and> (\<forall>d \<in> set (getDirectories t).
                      (path_join loc (getDirectoryName d), getDirectoryName d, d)
                        \<in> set (visits (rule ctx) location folderName tree)))"
    if v: "(loc, fn, t) \<in> set (visits (rule ctx) location folderName tree)" for loc fn t
  proof (cases "matchingEndFolderName (rule ctx) fn")
    case (Some a)
    obtain folder destination where a: "a = (folder, destination)" by (cases a)
    let ?c = "CopyFolder loc (endFolderLocation profile fn md destination)"
    from visited_matched_folder[OF r v Some[unfolded a]]
    have i: "(?c, True) \<in> set cs" unfolding c1 by auto
    have "c = ?c" if "(c, q) \<in> set cs" "covers c p" "within loc p" for c q p
      using run_covered_once[OF r built that(1)[unfolded c1] that(2) i[unfolded c1]] that(3) by simp
    with i show ?thesis unfolding Some a by auto
  next
    case None
    have 1: "(CopyFile f (path_join (fileLocation ctx profile md f) (basename f)), True) \<in> set cs
             \<and> (\<forall>c r. (c, r) \<in> set cs \<and> covers c f \<longrightarrow>
                           c = CopyFile f (path_join (fileLocation ctx profile md f) (basename f)))"
      if f: "f \<in> set (getFiles t)" for f
    proof -
      let ?c = "CopyFile f (path_join (fileLocation ctx profile md f) (basename f))"
      from visited_loose_file[OF r v None f]
      have i: "(?c, True) \<in> set cs" unfolding c1 by auto
      have "c = ?c" if "(c, q) \<in> set cs" "covers c f" for c q
        using run_covered_once[OF r built that(1)[unfolded c1] that(2) i[unfolded c1]] by simp
      with i show ?thesis by blast
    qed
    have 2: "(path_join loc (getDirectoryName d), getDirectoryName d, d)
                        \<in> set (visits (rule ctx) location folderName tree)"
      if "d \<in> set (getDirectories t)" for d
      using visits_children[OF v None that] .
    from 1 2 show ?thesis unfolding None by simp
  qed
  have D: "r \<and> (\<exists>(loc, fn, t) \<in> set (visits (rule ctx) location folderName tree).
                 (case matchingEndFolderName (rule ctx) fn of
                    Some (folder, destination) \<Rightarrow>
                      c = EnsureDirectory (endFolderLocation profile fn md destination)
                      \<or> c = CopyFolder loc (endFolderLocation profile fn md destination)
                  | None \<Rightarrow>
                      (\<exists>f \<in> set (getFiles t).
                         c = EnsureDirectory (fileLocation ctx profile md f)
                         \<or> c = CopyFile f (path_join (fileLocation ctx profile md f) (basename f)))))"
    if "(c, r) \<in> set cs" for c r
    using run_calls_origin[OF r that[unfolded c1]] .
  have indep: "resolveBepInExTree ctx profile location folderName md other w
                 = resolveBepInExTree ctx profile location folderName md tree w"
    if "matchingEndFolderName (rule ctx) folderName \<noteq> None" for other
  proof -
    from that obtain folder destination
      where m: "matchingEndFolderName (rule ctx) folderName = Some (folder, destination)"
      by (cases "matchingEndFolderName (rule ctx) folderName") auto
    obtain n1 f1 d1 where o: "other = FileTree n1 f1 d1" by (cases other)
    obtain n2 f2 d2 where t: "tree = FileTree n2 f2 d2" by (cases tree)
    show ?thesis unfolding o t by (simp add: m)
  qed
  have C': "\<forall>(loc, fn, t) \<in> set (visits (rule ctx) location folderName tree).
            (case matchingEndFolderName (rule ctx) fn of
               Some (folder, destination) \<Rightarrow>
                 (CopyFolder loc (endFolderLocation profile fn md destination), True) \<in> set cs
                 \<and> (\<forall>c r p. (c, r) \<in> set cs \<and> covers c p \<and> within loc p \<longrightarrow>
                        c = CopyFolder loc (endFolderLocation profile fn md destination))
             | None \<Rightarrow>
                 (\<forall>f \<in> set (getFiles t).
                    (CopyFile f (path_join (fileLocation ctx profile md f) (basename f)), True) \<in> set cs
                    \<and> (\<forall>c r. (c, r) \<in> set cs \<and> covers c f \<longrightarrow>
                           c = CopyFile f (path_join (fileLocation ctx profile md f) (basename f))))
                 \<and> (\<forall>d \<in> set (getDirectories t).
                      (path_join loc (getDirectoryName d), getDirectoryName d, d)
                        \<in> set (visits (rule ctx) location folderName tree)))"
    (is "Ball _ ?P")
  proof (rule ballI)
    fix x assume x: "x \<in> set (visits (rule ctx) location folderName tree)"
    obtain loc fn t where xe: "x = (loc, fn, t)" by (metis prod_cases3)
    from C[of loc fn t] x show "?P x" unfolding xe by (simp only: prod.case)
  qed
  have D': "\<forall>(c, r) \<in> set cs.
            r \<and> (\<exists>(loc, fn, t) \<in> set (visits (rule ctx) location folderName tree).
                 (case matchingEndFolderName (rule ctx) fn of
                    Some (folder, destination) \<Rightarrow>
                      c = EnsureDirectory (endFolderLocation profile fn md destination)
                      \<or> c = CopyFolder loc (endFolderLocation profile fn md destination)
                  | None \<Rightarrow>
                      (\<exists>f \<in> set (getFiles t).
                         c = EnsureDirectory (fileLocation ctx profile md f)
                         \<or> c = CopyFile f (path_join (fileLocation ctx profile md f) (basename f)))))"
    (is "Ball _ ?Q")
  proof (rule ballI)
    fix x assume x: "x \<in> set cs"
    obtain c r where xe: "x = (c, r)" by (cases x)
    from D[of c r] x show "?Q x" unfolding xe by (simp only: prod.case)
  qed
  from indep have E: "matchingEndFolderName (rule ctx) folderName \<noteq> None \<longrightarrow>
            (\<forall>other. resolveBepInExTree ctx profile location folderName md other w
                     = resolveBepInExTree ctx profile location folderName md tree w)" by blast
  show ?thesis by (intro conjI A B C' D' E)
qed

theorem resolve_handles_each_once_witness:
  "normalisedPaths exampleInstaller exampleProfile exampleMod
   \<and> builtFrom ''/c/Foo/2.0.0'' exampleNestedTree
   \<and> fst (resolveBepInExTree exampleInstaller exampleProfile ''/c/Foo/2.0.0'' ''2.0.0'' exampleMod
            exampleNestedTree exampleNestedWorld) = None
   \<and> ''/c/Foo/2.0.0/plugins/sub/x.mm.dll'' \<in> set (getRecursiveFiles exampleNestedTree)
   \<and> copiesOf (newCalls exampleNestedWorld (snd (resolveBepInExTree exampleInstaller exampleProfile
         ''/c/Foo/2.0.0'' ''2.0.0'' exampleMod exampleNestedTree exampleNestedWorld)))
         ''/c/Foo/2.0.0/plugins/sub/x.mm.dll'' = 1
   \<and> (''/c/Foo/2.0.0/plugins'', ''plugins'',
        FileTree ''plugins'' [] [FileTree ''sub'' [''/c/Foo/2.0.0/plugins/sub/x.mm.dll''] []])
        \<in> set (visits (rule exampleInstaller) ''/c/Foo/2.0.0'' ''2.0.0'' exampleNestedTree)
   \<and> matchingEndFolderName (rule exampleInstaller) ''plugins'' = Some (''plugins'', ''BepInEx/plugins'')
   \<and> (CopyFolder ''/c/Foo/2.0.0/plugins'' ''/p/BepInEx/plugins/Foo'', True)
        \<in> set (newCalls exampleNestedWorld (snd (resolveBepInExTree exampleInstaller exampleProfile
         ''/c/Foo/2.0.0'' ''2.0.0'' exampleMod exampleNestedTree exampleNestedWorld)))
   \<and> (''/c/Foo/2.0.0/lib'', ''lib'',
        FileTree ''lib'' [''/c/Foo/2.0.0/lib/y.mm.dll'', ''/c/Foo/2.0.0/lib/z.txt'']
          [FileTree ''Config'' [''/c/Foo/2.0.0/lib/Config/bar.cfg''] []])
        \<in> set (visits (rule exampleInstaller) ''/c/Foo/2.0.0'' ''2.0.0'' exampleNestedTree)
   \<and> matchingEndFolderName (rule exampleInstaller) ''lib'' = None
   \<and> (CopyFile ''/c/Foo/2.0.0/lib/z.txt'' ''/p/BepInEx/plugins/Foo/z.txt'', True)
        \<in> set (newCalls exampleNestedWorld (snd (resolveBepInExTree exampleInstaller exampleProfile
         ''/c/Foo/2.0.0'' ''2.0.0'' exampleMod exampleNestedTree exampleNestedWorld)))
   \<and> (''/c/Foo/2.0.0/lib/Config'', ''Config'', FileTree ''Config'' [''/c/Foo/2.0.0/lib/Config/bar.cfg''] [])
        \<in> set (visits (rule exampleInstaller) ''/c/Foo/2.0.0'' ''2.0.0'' exampleNestedTree)"
proof -
  let ?cs = "newCalls exampleNestedWorld (snd (resolveBepInExTree exampleInstaller exampleProfile
         ''/c/Foo/2.0.0'' ''2.0.0'' exampleMod exampleNestedTree exampleNestedWorld))"
  have h0: "normalisedPaths exampleInstaller exampleProfile exampleMod" by code_simp
  have h1: "builtFrom ''/c/Foo/2.0.0'' exampleNestedTree" by code_simp
  have h2: "fst (resolveBepInExTree exampleInstaller exampleProfile ''/c/Foo/2.0.0'' ''2.0.0'' exampleMod
            exampleNestedTree exampleNestedWorld) = None" by code_simp
  have h3: "''/c/Foo/2.0.0/plugins/sub/x.mm.dll'' \<in> set (getRecursiveFiles exampleNestedTree)" by code_simp
  have v1: "(''/c/Foo/2.0.0/plugins'', ''plugins'',
        FileTree ''plugins'' [] [FileTree ''sub'' [''/c/Foo/2.0.0/plugins/sub/x.mm.dll''] []])
        \<in> set (visits (rule exampleInstaller) ''/c/Foo/2.0.0'' ''2.0.0'' exampleNestedTree)" by code_simp
  have m1: "matchingEndFolderName (rule exampleInstaller) ''plugins'' = Some (''plugins'', ''BepInEx/plugins'')"
    by code_simp
  have e1: "endFolderLocation exampleProfile ''plugins'' exampleMod ''BepInEx/plugins'' = ''/p/BepInEx/plugins/Foo''"
    by code_simp
  have v2: "(''/c/Foo/2.0.0/lib'', ''lib'',
        FileTree ''lib'' [''/c/Foo/2.0.0/lib/y.mm.dll'', ''/c/Foo/2.0.0/lib/z.txt'']
          [FileTree ''Config'' [''/c/Foo/2.0.0/lib/Config/bar.cfg''] []])
        \<in> set (visits (rule exampleInstaller) ''/c/Foo/2.0.0'' ''2.0.0'' exampleNestedTree)" by code_simp
  have m2: "matchingEndFolderName (rule exampleInstaller) ''lib'' = None" by code_simp
  have e2: "path_join (fileLocation exampleInstaller exampleProfile exampleMod ''/c/Foo/2.0.0/lib/z.txt'')
              (basename ''/c/Foo/2.0.0/lib/z.txt'') = ''/p/BepInEx/plugins/Foo/z.txt''" by code_simp
  note t = resolve_handles_each_once[OF h0 h1 h2 refl]
  from t[THEN conjunct1] h3 have a: "copiesOf ?cs ''/c/Foo/2.0.0/plugins/sub/x.mm.dll'' = 1" by blast
  note c = t[THEN conjunct2, THEN conjunct2, THEN conjunct1]
  from c[THEN bspec, OF v1] have b: "(CopyFolder ''/c/Foo/2.0.0/plugins'' ''/p/BepInEx/plugins/Foo'', True) \<in> set ?cs"
    unfolding prod.case m1 option.case e1 by (rule conjunct1)
  from c[THEN bspec, OF v2]
  have c2: "(\<forall>f \<in> set [''/c/Foo/2.0.0/lib/y.mm.dll'', ''/c/Foo/2.0.0/lib/z.txt''].
              (CopyFile f (path_join (fileLocation exampleInstaller exampleProfile exampleMod f) (basename f)), True)
                  \<in> set ?cs
              \<and> (\<forall>c r. (c, r) \<in> set ?cs \<and> covers c f \<longrightarrow>
                     c = CopyFile f (path_join (fileLocation exampleInstaller exampleProfile exampleMod f) (basename f))))
            \<and> (\<forall>d \<in> set [FileTree ''Config'' [''/c/Foo/2.0.0/lib/Config/bar.cfg''] []].
                  (path_join ''/c/Foo/2.0.0/lib'' (getDirectoryName d), getDirectoryName d, d)
                     \<in> set (visits (rule exampleInstaller) ''/c/Foo/2.0.0'' ''2.0.0'' exampleNestedTree))"
    unfolding prod.case m2 option.case FileTree.sel .
  from c2 have "(CopyFile ''/c/Foo/2.0.0/lib/z.txt''
                   (path_join (fileLocation exampleInstaller exampleProfile exampleMod ''/c/Foo/2.0.0/lib/z.txt'')
                      (basename ''/c/Foo/2.0.0/lib/z.txt'')), True) \<in> set ?cs"
    by simp
  then have d: "(CopyFile ''/c/Foo/2.0.0/lib/z.txt'' ''/p/BepInEx/plugins/Foo/z.txt'', True) \<in> set ?cs"
    unfolding e2 .
  from c2 have "(path_join ''/c/Foo/2.0.0/lib'' ''Config'', ''Config'',
                   FileTree ''Config'' [''/c/Foo/2.0.0/lib/Config/bar.cfg''] [])
                   \<in> set (visits (rule exampleInstaller) ''/c/Foo/2.0.0'' ''2.0.0'' exampleNestedTree)"
    by simp
  moreover have "path_join ''/c/Foo/2.0.0/lib'' ''Config'' = ''/c/Foo/2.0.0/lib/Config''" by code_simp
  ultimately have e: "(''/c/Foo/2.0.0/lib/Config'', ''Config'', FileTree ''Config'' [''/c/Foo/2.0.0/lib/Config/bar.cfg''] [])
        \<in> set (visits (rule exampleInstaller) ''/c/Foo/2.0.0'' ''2.0.0'' exampleNestedTree)" by simp
  from h0 h1 h2 h3 a v1 m1 b v2 m2 d e show ?thesis by (intro conjI)
qed

text \<open>
  Claim C5. Let an install, that is a run of \<open>resolveBepInExTree\<close> from any folder (the
  version folder of the cached package, in \<open>installForManifestV2\<close>), return no error. For
  every folder the run reaches whose name matches a rule key, the run ensured the
  destination directory and, as its next call, copied the folder to it; for a tree that
  is a snapshot of its location, this is the only copy call of the run that covers
  anything at or below the folder. The destination is the profile root joined with the
  rule's destination when the folder's lower-cased name is \<open>config\<close>, and that path joined
  with the mod's name otherwise. A call of the function on such a folder makes these two
  calls and no other, and stops at the one that fails. (A folder below a folder that
  matches a rule key is not reached: it is copied along with the folder above it.)
\<close>

theorem matched_folder_destination:
  assumes paths: "normalisedPaths ctx profile md"
    and ok: "fst (resolveBepInExTree ctx profile location folderName md tree w) = None"
    and cs: "cs = newCalls w (snd (resolveBepInExTree ctx profile location folderName md tree w))"
    and v: "(loc, fn, t) \<in> set (visits (rule ctx) location folderName tree)"
    and m: "matchingEndFolderName (rule ctx) fn = Some (folder, destination)"
    and dest: "dest = (if toLowerCase fn = ''config''
                 then path_join (getPathOfProfile profile) destination
                 else path_join (path_join (getPathOfProfile profile) destination) (getName md))"
  shows "(\<exists>pre post. cs = pre @ [(EnsureDirectory dest, True), (CopyFolder loc dest, True)] @ post)
       \<and> (builtFrom location tree \<longrightarrow>
            (\<forall>c r p. (c, r) \<in> set cs \<and> covers c p \<and> within loc p \<longrightarrow> c = CopyFolder loc dest))
       \<and> (fst (resolveBepInExTree ctx profile loc fn md u v) = None \<longrightarrow>
            newCalls v (snd (resolveBepInExTree ctx profile loc fn md u v))
              = [(EnsureDirectory dest, True), (CopyFolder loc dest, True)])
       \<and> (fst (resolveBepInExTree ctx profile loc fn md u v) \<noteq> None \<longrightarrow>
            newCalls v (snd (resolveBepInExTree ctx profile loc fn md u v)) = [(EnsureDirectory dest, False)]
          \<or> newCalls v (snd (resolveBepInExTree ctx profile loc fn md u v))
              = [(EnsureDirectory dest, True), (CopyFolder loc dest, False)])"
proof -
  obtain w1 where r: "resolveBepInExTree ctx profile location folderName md tree w = (None, w1)"
    using ok by (cases "resolveBepInExTree ctx profile location folderName md tree w") auto
  have c1: "cs = newCalls w w1" using cs r by simp
  have d: "dest = endFolderLocation profile fn md destination"
    using dest by (simp add: endFolderLocation_def)
  have A: "\<exists>pre post. cs = pre @ [(EnsureDirectory dest, True), (CopyFolder loc dest, True)] @ post"
    using visited_matched_folder[OF r v m] unfolding c1 d .
  then have i: "(CopyFolder loc dest, True) \<in> set cs" by auto
  have B: "builtFrom location tree \<longrightarrow>
            (\<forall>c r p. (c, r) \<in> set cs \<and> covers c p \<and> within loc p \<longrightarrow> c = CopyFolder loc dest)"
  proof (intro impI allI, elim conjE)
    fix c q p
    assume built: "builtFrom location tree" and "(c, q) \<in> set cs" "covers c p" "within loc p"
    then show "c = CopyFolder loc dest"
      using run_covered_once[OF r built, of c q p "CopyFolder loc dest" True] i unfolding c1 by simp
  qed
  obtain name fs dirs where u: "u = FileTree name fs dirs" by (cases u)
  have e: "resolveBepInExTree ctx profile loc fn md u v
             = resolveEndFolder ctx profile loc fn md destination v"
    using m u by simp
  have C: "(fst (resolveBepInExTree ctx profile loc fn md u v) = None \<longrightarrow>
            newCalls v (snd (resolveBepInExTree ctx profile loc fn md u v))
              = [(EnsureDirectory dest, True), (CopyFolder loc dest, True)])
       \<and> (fst (resolveBepInExTree ctx profile loc fn md u v) \<noteq> None \<longrightarrow>
            newCalls v (snd (resolveBepInExTree ctx profile loc fn md u v)) = [(EnsureDirectory dest, False)]
          \<or> newCalls v (snd (resolveBepInExTree ctx profile loc fn md u v))
              = [(EnsureDirectory dest, True), (CopyFolder loc dest, False)])"
    using resolveEndFolder_calls[of ctx profile loc fn md destination v
            "fst (resolveEndFolder ctx profile loc fn md destination v)"
            "snd (resolveEndFolder ctx profile loc fn md destination v)"]
    unfolding d e by simp
  from A B C show ?thesis by (intro conjI) blast+
qed

text \<open>
  Installing the cached package of the example from its version folder, which matches no
  rule: the \<open>Config\<close> folder one level down goes to the shared config directory, where its
  file then is, and the \<open>PLUGINS\<close> folder two levels down goes to the plugins directory of
  the mod.
\<close>

theorem matched_folder_destination_witness:
  "normalisedPaths exampleInstaller exampleProfile exampleMod
   \<and> fst (resolveBepInExTree exampleInstaller exampleProfile ''/c/Foo/1.0.0'' ''1.0.0'' exampleMod
            exampleTree exampleCacheWorld) = None
   \<and> (''/c/Foo/1.0.0/Config'', ''Config'', FileTree ''Config'' [''/c/Foo/1.0.0/Config/foo.cfg''] [])
        \<in> set (visits (rule exampleInstaller) ''/c/Foo/1.0.0'' ''1.0.0'' exampleTree)
   \<and> matchingEndFolderName (rule exampleInstaller) ''Config'' = Some (''config'', ''BepInEx/config'')
   \<and> (EnsureDirectory ''/p/BepInEx/config'', True)
        \<in> set (newCalls exampleCacheWorld (snd (resolveBepInExTree exampleInstaller exampleProfile
                   ''/c/Foo/1.0.0'' ''1.0.0'' exampleMod exampleTree exampleCacheWorld)))
   \<and> (CopyFolder ''/c/Foo/1.0.0/Config'' ''/p/BepInEx/config'', True)
        \<in> set (newCalls exampleCacheWorld (snd (resolveBepInExTree exampleInstaller exampleProfile
                   ''/c/Foo/1.0.0'' ''1.0.0'' exampleMod exampleTree exampleCacheWorld)))
   \<and> map_of (store (snd (resolveBepInExTree exampleInstaller exampleProfile
                   ''/c/Foo/1.0.0'' ''1.0.0'' exampleMod exampleTree exampleCacheWorld)))
        ''/p/BepInEx/config/foo.cfg'' = Some (FileNode ''c'')
   \<and> (''/c/Foo/1.0.0/x/PLUGINS'', ''PLUGINS'', FileTree ''PLUGINS'' [''/c/Foo/1.0.0/x/PLUGINS/Foo.dll''] [])
        \<in> set (visits (rule exampleInstaller) ''/c/Foo/1.0.0'' ''1.0.0'' exampleTree)
   \<and> matchingEndFolderName (rule exampleInstaller) ''PLUGINS'' = Some (''plugins'', ''BepInEx/plugins'')
   \<and> (EnsureDirectory ''/p/BepInEx/plugins/Foo'', True)
        \<in> set (newCalls exampleCacheWorld (snd (resolveBepInExTree exampleInstaller exampleProfile
                   ''/c/Foo/1.0.0'' ''1.0.0'' exampleMod exampleTree exampleCacheWorld)))
   \<and> (CopyFolder ''/c/Foo/1.0.0/x/PLUGINS'' ''/p/BepInEx/plugins/Foo'', True)
        \<in> set (newCalls exampleCacheWorld (snd (resolveBepInExTree exampleInstaller exampleProfile
                   ''/c/Foo/1.0.0'' ''1.0.0'' exampleMod exampleTree exampleCacheWorld)))"
proof -
  let ?cs = "newCalls exampleCacheWorld (snd (resolveBepInExTree exampleInstaller exampleProfile
                   ''/c/Foo/1.0.0'' ''1.0.0'' exampleMod exampleTree exampleCacheWorld))"
  have h0: "normalisedPaths exampleInstaller exampleProfile exampleMod" by code_simp
  have h: "fst (resolveBepInExTree exampleInstaller exampleProfile ''/c/Foo/1.0.0'' ''1.0.0'' exampleMod
            exampleTree exampleCacheWorld) = None" by code_simp
  have v1: "(''/c/Foo/1.0.0/Config'', ''Config'', FileTree ''Config'' [''/c/Foo/1.0.0/Config/foo.cfg''] [])
        \<in> set (visits (rule exampleInstaller) ''/c/Foo/1.0.0'' ''1.0.0'' exampleTree)" by code_simp
  have m1: "matchingEndFolderName (rule exampleInstaller) ''Config'' = Some (''config'', ''BepInEx/config'')"
    by code_simp
  have d1: "''/p/BepInEx/config'' = (if toLowerCase ''Config'' = ''config''
                 then path_join (getPathOfProfile exampleProfile) ''BepInEx/config''
                 else path_join (path_join (getPathOfProfile exampleProfile) ''BepInEx/config'') (getName exampleMod))"
    by code_simp
  have s1: "map_of (store (snd (resolveBepInExTree exampleInstaller exampleProfile
                   ''/c/Foo/1.0.0'' ''1.0.0'' exampleMod exampleTree exampleCacheWorld)))
        ''/p/BepInEx/config/foo.cfg'' = Some (FileNode ''c'')" by code_simp
  have v2: "(''/c/Foo/1.0.0/x/PLUGINS'', ''PLUGINS'', FileTree ''PLUGINS'' [''/c/Foo/1.0.0/x/PLUGINS/Foo.dll''] [])
        \<in> set (visits (rule exampleInstaller) ''/c/Foo/1.0.0'' ''1.0.0'' exampleTree)" by code_simp
  have m2: "matchingEndFolderName (rule exampleInstaller) ''PLUGINS'' = Some (''plugins'', ''BepInEx/plugins'')"
    by code_simp
  have d2: "''/p/BepInEx/plugins/Foo'' = (if toLowerCase ''PLUGINS'' = ''config''
                 then path_join (getPathOfProfile exampleProfile) ''BepInEx/plugins''
                 else path_join (path_join (getPathOfProfile exampleProfile) ''BepInEx/plugins'') (getName exampleMod))"
    by code_simp
  from matched_folder_destination[OF h0 h refl v1 m1 d1, THEN conjunct1]
  have a: "(EnsureDirectory ''/p/BepInEx/config'', True) \<in> set ?cs
           \<and> (CopyFolder ''/c/Foo/1.0.0/Config'' ''/p/BepInEx/config'', True) \<in> set ?cs"
    by (elim exE) simp
  from matched_folder_destination[OF h0 h refl v2 m2 d2, THEN conjunct1]
  have b: "(EnsureDirectory ''/p/BepInEx/plugins/Foo'', True) \<in> set ?cs
           \<and> (CopyFolder ''/c/Foo/1.0.0/x/PLUGINS'' ''/p/BepInEx/plugins/Foo'', True) \<in> set ?cs"
    by (elim exE) simp
  from h0 h v1 m1 a s1 v2 m2 b show ?thesis by (intro conjI) (erule conjunct1 conjunct2 | assumption)+
qed

text \<open>
  Claim C6, as amended. Let an install, that is a run of \<open>resolveBepInExTree\<close> from any
  folder, return no error. For every file directly in a folder the run reaches whose name
  matches no rule key (the folder the run starts at, or one reached from it through
  folders none of which matches a rule key), the run ensured a directory and, as its next
  call, copied the file to its base name in that directory; for a tree that is a snapshot
  of its location, this is the only copy call of the run that covers the file. The
  directory is \<open><profile>/BepInEx/monomod/<mod name>\<close> when the file's lower-cased name
  ends with \<open>.mm.dll\<close>, and \<open><profile>/<defaultPath>/<mod name>\<close> otherwise. The step of
  the loop for such a file makes these two calls and no other, and stops at the one that
  fails. (A folder below a folder that matches a rule key is not reached, whatever its own
  name, so its files are not among these.)
\<close>

theorem loose_file_destination:
  assumes paths: "normalisedPaths ctx profile md"
    and ok: "fst (resolveBepInExTree ctx profile location folderName md tree w) = None"
    and cs: "cs = newCalls w (snd (resolveBepInExTree ctx profile location folderName md tree w))"
    and v: "(loc, fn, t) \<in> set (visits (rule ctx) location folderName tree)"
    and m: "matchingEndFolderName (rule ctx) fn = None"
    and f: "f \<in> set (getFiles t)"
    and dir: "dir = (if endsWith (toLowerCase (basename f)) ''.mm.dll''
                then path_join (path_join (path_join (getPathOfProfile profile) ''BepInEx'') ''monomod'') (getName md)
                else path_join (path_join (getPathOfProfile profile) (defaultPath (rule ctx))) (getName md))"
  shows "(\<exists>pre post. cs = pre @ [(EnsureDirectory dir, True),
                                  (CopyFile f (path_join dir (basename f)), True)] @ post)
       \<and> (builtFrom location tree \<longrightarrow>
            (\<forall>c r. (c, r) \<in> set cs \<and> covers c f \<longrightarrow> c = CopyFile f (path_join dir (basename f))))
       \<and> (fst (resolveFile ctx profile loc md f u) = None \<longrightarrow>
            newCalls u (snd (resolveFile ctx profile loc md f u))
              = [(EnsureDirectory dir, True), (CopyFile f (path_join dir (basename f)), True)])
       \<and> (fst (resolveFile ctx profile loc md f u) \<noteq> None \<longrightarrow>
            newCalls u (snd (resolveFile ctx profile loc md f u)) = [(EnsureDirectory dir, False)]
          \<or> newCalls u (snd (resolveFile ctx profile loc md f u))
              = [(EnsureDirectory dir, True), (CopyFile f (path_join dir (basename f)), False)])"
proof -
  obtain w1 where r: "resolveBepInExTree ctx profile location folderName md tree w = (None, w1)"
    using ok by (cases "resolveBepInExTree ctx profile location folderName md tree w") auto
  have c1: "cs = newCalls w w1" using cs r by simp
  have l: "dir = fileLocation ctx profile md f"
    using dir endsWith_basename[of "''.mm.dll''" f] by (simp add: fileLocation_def)
  have A: "\<exists>pre post. cs = pre @ [(EnsureDirectory dir, True),
                                  (CopyFile f (path_join dir (basename f)), True)] @ post"
    using visited_loose_file[OF r v m f] unfolding c1 l .
  then have i: "(CopyFile f (path_join dir (basename f)), True) \<in> set cs" by auto
  have B: "builtFrom location tree \<longrightarrow>
            (\<forall>c r. (c, r) \<in> set cs \<and> covers c f \<longrightarrow> c = CopyFile f (path_join dir (basename f)))"
  proof (intro impI allI, elim conjE)
    fix c q
    assume built: "builtFrom location tree" and "(c, q) \<in> set cs" "covers c f"
    then show "c = CopyFile f (path_join dir (basename f))"
      using run_covered_once[OF r built, of c q f "CopyFile f (path_join dir (basename f))" True] i
      unfolding c1 by simp
  qed
  have C: "(fst (resolveFile ctx profile loc md f u) = None \<longrightarrow>
            newCalls u (snd (resolveFile ctx profile loc md f u))
              = [(EnsureDirectory dir, True), (CopyFile f (path_join dir (basename f)), True)])
       \<and> (fst (resolveFile ctx profile loc md f u) \<noteq> None \<longrightarrow>
            newCalls u (snd (resolveFile ctx profile loc md f u)) = [(EnsureDirectory dir, False)]
          \<or> newCalls u (snd (resolveFile ctx profile loc md f u))
              = [(EnsureDirectory dir, True), (CopyFile f (path_join dir (basename f)), False)])"
    using resolveFile_calls[of ctx profile loc md f u
            "fst (resolveFile ctx profile loc md f u)" "snd (resolveFile ctx profile loc md f u)"]
    unfolding l by simp
  from A B C show ?thesis by (intro conjI) blast+
qed

theorem loose_file_destination_witness:
  "normalisedPaths exampleInstaller exampleProfile exampleMod
   \<and> fst (resolveBepInExTree exampleInstaller exampleProfile ''/c/Foo/2.0.0'' ''2.0.0'' exampleMod
            exampleNestedTree exampleNestedWorld) = None
   \<and> (''/c/Foo/2.0.0/lib'', ''lib'',
        FileTree ''lib'' [''/c/Foo/2.0.0/lib/y.mm.dll'', ''/c/Foo/2.0.0/lib/z.txt'']
          [FileTree ''Config'' [''/c/Foo/2.0.0/lib/Config/bar.cfg''] []])
        \<in> set (visits (rule exampleInstaller) ''/c/Foo/2.0.0'' ''2.0.0'' exampleNestedTree)
   \<and> matchingEndFolderName (rule exampleInstaller) ''lib'' = None
   \<and> endsWith (toLowerCase (basename ''/c/Foo/2.0.0/lib/y.mm.dll'')) ''.mm.dll''
   \<and> (EnsureDirectory ''/p/BepInEx/monomod/Foo'', True)
        \<in> set (newCalls exampleNestedWorld (snd (resolveBepInExTree exampleInstaller exampleProfile
                   ''/c/Foo/2.0.0'' ''2.0.0'' exampleMod exampleNestedTree exampleNestedWorld)))
   \<and> (CopyFile ''/c/Foo/2.0.0/lib/y.mm.dll'' ''/p/BepInEx/monomod/Foo/y.mm.dll'', True)
        \<in> set (newCalls exampleNestedWorld (snd (resolveBepInExTree exampleInstaller exampleProfile
                   ''/c/Foo/2.0.0'' ''2.0.0'' exampleMod exampleNestedTree exampleNestedWorld)))
   \<and> \<not> endsWith (toLowerCase (basename ''/c/Foo/2.0.0/lib/z.txt'')) ''.mm.dll''
   \<and> (EnsureDirectory ''/p/BepInEx/plugins/Foo'', True)
        \<in> set (newCalls exampleNestedWorld (snd (resolveBepInExTree exampleInstaller exampleProfile
                   ''/c/Foo/2.0.0'' ''2.0.0'' exampleMod exampleNestedTree exampleNestedWorld)))
   \<and> (CopyFile ''/c/Foo/2.0.0/lib/z.txt'' ''/p/BepInEx/plugins/Foo/z.txt'', True)
        \<in> set (newCalls exampleNestedWorld (snd (resolveBepInExTree exampleInstaller exampleProfile
                   ''/c/Foo/2.0.0'' ''2.0.0'' exampleMod exampleNestedTree exampleNestedWorld)))"
proof -
  let ?cs = "newCalls exampleNestedWorld (snd (resolveBepInExTree exampleInstaller exampleProfile
                   ''/c/Foo/2.0.0'' ''2.0.0'' exampleMod exampleNestedTree exampleNestedWorld))"
  let ?lib = "FileTree ''lib'' [''/c/Foo/2.0.0/lib/y.mm.dll'', ''/c/Foo/2.0.0/lib/z.txt'']
          [FileTree ''Config'' [''/c/Foo/2.0.0/lib/Config/bar.cfg''] []]"
  have h0: "normalisedPaths exampleInstaller exampleProfile exampleMod" by code_simp
  have h: "fst (resolveBepInExTree exampleInstaller exampleProfile ''/c/Foo/2.0.0'' ''2.0.0'' exampleMod
            exampleNestedTree exampleNestedWorld) = None" by code_simp
  have v: "(''/c/Foo/2.0.0/lib'', ''lib'', ?lib)
        \<in> set (visits (rule exampleInstaller) ''/c/Foo/2.0.0'' ''2.0.0'' exampleNestedTree)" by code_simp
  have m: "matchingEndFolderName (rule exampleInstaller) ''lib'' = None" by code_simp
  have f1: "''/c/Foo/2.0.0/lib/y.mm.dll'' \<in> set (getFiles ?lib)" by code_simp
  have f2: "''/c/Foo/2.0.0/lib/z.txt'' \<in> set (getFiles ?lib)" by code_simp
  have p1: "endsWith (toLowerCase (basename ''/c/Foo/2.0.0/lib/y.mm.dll'')) ''.mm.dll''" by code_simp
  have p2: "\<not> endsWith (toLowerCase (basename ''/c/Foo/2.0.0/lib/z.txt'')) ''.mm.dll''" by code_simp
  have l1: "''/p/BepInEx/monomod/Foo'' = (if endsWith (toLowerCase (basename ''/c/Foo/2.0.0/lib/y.mm.dll'')) ''.mm.dll''
                then path_join (path_join (path_join (getPathOfProfile exampleProfile) ''BepInEx'') ''monomod'') (getName exampleMod)
                else path_join (path_join (getPathOfProfile exampleProfile) (defaultPath (rule exampleInstaller))) (getName exampleMod))"
    by code_simp
  have l2: "''/p/BepInEx/plugins/Foo'' = (if endsWith (toLowerCase (basename ''/c/Foo/2.0.0/lib/z.txt'')) ''.mm.dll''
                then path_join (path_join (path_join (getPathOfProfile exampleProfile) ''BepInEx'') ''monomod'') (getName exampleMod)
                else path_join (path_join (getPathOfProfile exampleProfile) (defaultPath (rule exampleInstaller))) (getName exampleMod))"
    by code_simp
  have b1: "path_join ''/p/BepInEx/monomod/Foo'' (basename ''/c/Foo/2.0.0/lib/y.mm.dll'') = ''/p/BepInEx/monomod/Foo/y.mm.dll''"
    by code_simp
  have b2: "path_join ''/p/BepInEx/plugins/Foo'' (basename ''/c/Foo/2.0.0/lib/z.txt'') = ''/p/BepInEx/plugins/Foo/z.txt''"
    by code_simp
  from loose_file_destination[OF h0 h refl v m f1 l1, THEN conjunct1]
  have a: "(EnsureDirectory ''/p/BepInEx/monomod/Foo'', True) \<in> set ?cs
           \<and> (CopyFile ''/c/Foo/2.0.0/lib/y.mm.dll'' ''/p/BepInEx/monomod/Foo/y.mm.dll'', True) \<in> set ?cs"
    unfolding b1 by (elim exE) simp
  from loose_file_destination[OF h0 h refl v m f2 l2, THEN conjunct1]
  have b: "(EnsureDirectory ''/p/BepInEx/plugins/Foo'', True) \<in> set ?cs
           \<and> (CopyFile ''/c/Foo/2.0.0/lib/z.txt'' ''/p/BepInEx/plugins/Foo/z.txt'', True) \<in> set ?cs"
    unfolding b2 by (elim exE) simp
  from h0 h v m p1 a p2 b show ?thesis by (intro conjI) (erule conjunct1 conjunct2 | assumption)+
qed

text \<open>
  The claim as it is stated fails for a file that sits directly in a folder matching no
  rule below a folder that matches one. The folder \<open>sub\<close> matches no rule and holds the
  patch file \<open>x.mm.dll\<close>, and it lies in the folder \<open>plugins\<close>: the install succeeds, the
  file is copied with the \<open>plugins\<close> folder to \<open>/p/BepInEx/plugins/Foo/sub/x.mm.dll\<close>, and
  nothing is copied to \<open>/p/BepInEx/monomod/Foo/x.mm.dll\<close>.
\<close>

theorem loose_file_destination_counterexample:
  "matchingEndFolderName (rule exampleInstaller) ''plugins'' = Some (''plugins'', ''BepInEx/plugins'')
   \<and> matchingEndFolderName (rule exampleInstaller) ''sub'' = None
   \<and> childName ''/c/Foo/2.0.0/plugins/sub'' ''/c/Foo/2.0.0/plugins/sub/x.mm.dll'' = Some ''x.mm.dll''
   \<and> endsWith (toLowerCase ''x.mm.dll'') ''.mm.dll''
   \<and> resolveBepInExTree exampleInstaller exampleProfile ''/c/Foo/2.0.0'' ''2.0.0'' exampleMod
        exampleNestedTree exampleNestedWorld
      = (None,
         \<lparr>store = store exampleNestedWorld @
            [(''/p/BepInEx'', DirNode), (''/p/BepInEx/plugins'', DirNode),
             (''/p/BepInEx/plugins/Foo'', DirNode), (''/p/BepInEx/plugins/Foo/sub'', DirNode),
             (''/p/BepInEx/plugins/Foo/sub/x.mm.dll'', FileNode ''x''),
             (''/p/BepInEx/monomod'', DirNode), (''/p/BepInEx/monomod/Foo'', DirNode),
             (''/p/BepInEx/monomod/Foo/y.mm.dll'', FileNode ''y''),
             (''/p/BepInEx/plugins/Foo/z.txt'', FileNode ''z''),
             (''/p/BepInEx/config'', DirNode), (''/p/BepInEx/config/bar.cfg'', FileNode ''b'')],
          busy = [],
          calls =
            [(EnsureDirectory ''/p/BepInEx/plugins/Foo'', True),
             (CopyFolder ''/c/Foo/2.0.0/plugins'' ''/p/BepInEx/plugins/Foo'', True),
             (EnsureDirectory ''/p/BepInEx/monomod/Foo'', True),
             (CopyFile ''/c/Foo/2.0.0/lib/y.mm.dll'' ''/p/BepInEx/monomod/Foo/y.mm.dll'', True),
             (EnsureDirectory ''/p/BepInEx/plugins/Foo'', True),
             (CopyFile ''/c/Foo/2.0.0/lib/z.txt'' ''/p/BepInEx/plugins/Foo/z.txt'', True),
             (EnsureDirectory ''/p/BepInEx/config'', True),
             (CopyFolder ''/c/Foo/2.0.0/lib/Config'' ''/p/BepInEx/config'', True)]\<rparr>)"
  by code_simp

section \<open>Failure propagation\<close>



section \<open>Name matching\<close>

text \<open>
  Claim C1, as amended. The match of a folder name against the rule keys, the lookup of
  the mod among the loader variants and the extension test of the mode toggle depend on
  the lower-cased names only, and succeed whenever the lower-cased names agree. The
  directory of the mod is found by exact comparison: \<open>applyModMode\<close> recurses into a
  subdirectory whose name is not exactly the mod's name and toggles the files of one
  whose name is, and \<open>uninstallMod\<close> skips a folder whose name is not exactly the mod's
  name.
\<close>

theorem name_matching_case_sensitivity:
  "(toLowerCase a = toLowerCase b \<longrightarrow> matchingEndFolderName r a = matchingEndFolderName r b)
   \<and> ((k, dst) \<in> set (rules r) \<and> toLowerCase k = toLowerCase a \<longrightarrow> matchingEndFolderName r a \<noteq> None)
   \<and> (toLowerCase (getName m1) = toLowerCase (getName m2) \<longrightarrow> findVariant ctx m1 = findVariant ctx m2)
   \<and> (v \<in> set (bepInExVariant ctx) \<and> toLowerCase (packageName v) = toLowerCase (getName m1) \<longrightarrow>
        findVariant ctx m1 \<noteq> None)
   \<and> (toLowerCase f1 = toLowerCase f2 \<longrightarrow> length (modeRenames mode f1) = length (modeRenames mode f2))
   \<and> (getDirectoryName d \<noteq> getName md \<longrightarrow>
        applyModMode ctx md (FileTree n fs [d]) profile location mode w
          = applyModMode ctx md d profile (path_join location (getDirectoryName d)) mode w)
   \<and> (getDirectoryName d = getName md \<longrightarrow>
        applyModMode ctx md (FileTree n fs [d]) profile location mode w
          = applyModeToFiles ctx mode (getRecursiveFiles d) w)
   \<and> (folder \<noteq> getName md \<longrightarrow>
        removeModFolders md dir (folder # rest) w = removeModFolders md dir rest w)"
proof (intro conjI impI)
  assume "toLowerCase a = toLowerCase b"
  then show "matchingEndFolderName r a = matchingEndFolderName r b"
    by (simp add: matchingEndFolderName_def)
next
  assume "(k, dst) \<in> set (rules r) \<and> toLowerCase k = toLowerCase a"
  then show "matchingEndFolderName r a \<noteq> None"
    by (auto simp: matchingEndFolderName_def find_None_iff)
next
  assume "toLowerCase (getName m1) = toLowerCase (getName m2)"
  then show "findVariant ctx m1 = findVariant ctx m2" by (simp add: findVariant_def)
next
  assume "v \<in> set (bepInExVariant ctx) \<and> toLowerCase (packageName v) = toLowerCase (getName m1)"
  then show "findVariant ctx m1 \<noteq> None" by (auto simp: findVariant_def find_None_iff)
next
  assume "toLowerCase f1 = toLowerCase f2"
  then show "length (modeRenames mode f1) = length (modeRenames mode f2)"
    by (cases mode) (simp_all add: modeRenames_DISABLED modeRenames_ENABLED)
next
  assume "getDirectoryName d \<noteq> getName md"
  then show "applyModMode ctx md (FileTree n fs [d]) profile location mode w
          = applyModMode ctx md d profile (path_join location (getDirectoryName d)) mode w"
    by (simp split: prod.splits option.splits)
next
  assume "getDirectoryName d = getName md"
  then show "applyModMode ctx md (FileTree n fs [d]) profile location mode w
          = applyModeToFiles ctx mode (getRecursiveFiles d) w"
    by simp
next
  assume "folder \<noteq> getName md"
  then show "removeModFolders md dir (folder # rest) w = removeModFolders md dir rest w"
    by simp
qed

theorem name_matching_case_sensitivity_witness:
  "toLowerCase ''Config'' = toLowerCase ''CONFIG''
   \<and> matchingEndFolderName (rule exampleInstaller) ''Config''
       = matchingEndFolderName (rule exampleInstaller) ''CONFIG''
   \<and> (''config'', ''BepInEx/config'') \<in> set (rules (rule exampleInstaller))
   \<and> toLowerCase ''config'' = toLowerCase ''Config''
   \<and> matchingEndFolderName (rule exampleInstaller) ''Config'' \<noteq> None
   \<and> toLowerCase (getName exampleLoader) = toLowerCase (getName \<lparr>getName = ''BepInExPack''\<rparr>)
   \<and> findVariant exampleInstaller exampleLoader = findVariant exampleInstaller \<lparr>getName = ''BepInExPack''\<rparr>
   \<and> \<lparr>packageName = ''BepInExPack'', rootFolder = ''BepInExPack''\<rparr> \<in> set (bepInExVariant exampleInstaller)
   \<and> toLowerCase (packageName \<lparr>packageName = ''BepInExPack'', rootFolder = ''BepInExPack''\<rparr>)
       = toLowerCase (getName exampleLoader)
   \<and> findVariant exampleInstaller exampleLoader \<noteq> None
   \<and> toLowerCase ''/p/x/A.DLL'' = toLowerCase ''/p/x/a.dll''
   \<and> length (modeRenames DISABLED ''/p/x/A.DLL'') = length (modeRenames DISABLED ''/p/x/a.dll'')
   \<and> getDirectoryName (FileTree ''plugins'' [] []) \<noteq> getName exampleMod
   \<and> applyModMode exampleInstaller exampleMod (FileTree ''BepInEx'' [] [FileTree ''plugins'' [] []])
         exampleProfile ''/p/BepInEx'' DISABLED exampleWorld
       = applyModMode exampleInstaller exampleMod (FileTree ''plugins'' [] []) exampleProfile
           (path_join ''/p/BepInEx'' (getDirectoryName (FileTree ''plugins'' [] []))) DISABLED exampleWorld
   \<and> getDirectoryName (FileTree ''Foo'' [''/p/BepInEx/plugins/Foo/Foo.dll''] []) = getName exampleMod
   \<and> applyModMode exampleInstaller exampleMod
         (FileTree ''plugins'' [] [FileTree ''Foo'' [''/p/BepInEx/plugins/Foo/Foo.dll''] []])
         exampleProfile ''/p/BepInEx/plugins'' DISABLED exampleWorld
       = applyModeToFiles exampleInstaller DISABLED
           (getRecursiveFiles (FileTree ''Foo'' [''/p/BepInEx/plugins/Foo/Foo.dll''] [])) exampleWorld
   \<and> ''foo'' \<noteq> getName exampleMod
   \<and> removeModFolders exampleMod ''/p/BepInEx/plugins'' [''foo'', ''Foo''] exampleWorld
       = removeModFolders exampleMod ''/p/BepInEx/plugins'' [''Foo''] exampleWorld"
proof -
  have h1: "toLowerCase ''Config'' = toLowerCase ''CONFIG''" by code_simp
  have h2: "(''config'', ''BepInEx/config'') \<in> set (rules (rule exampleInstaller))
            \<and> toLowerCase ''config'' = toLowerCase ''Config''" by code_simp
  have h3: "toLowerCase (getName exampleLoader) = toLowerCase (getName \<lparr>getName = ''BepInExPack''\<rparr>)"
    by code_simp
  have h4: "\<lparr>packageName = ''BepInExPack'', rootFolder = ''BepInExPack''\<rparr> \<in> set (bepInExVariant exampleInstaller)
            \<and> toLowerCase (packageName \<lparr>packageName = ''BepInExPack'', rootFolder = ''BepInExPack''\<rparr>)
                 = toLowerCase (getName exampleLoader)" by code_simp
  have h5: "toLowerCase ''/p/x/A.DLL'' = toLowerCase ''/p/x/a.dll''" by code_simp
  have h6: "getDirectoryName (FileTree ''plugins'' [] []) \<noteq> getName exampleMod" by code_simp
  have h7: "getDirectoryName (FileTree ''Foo'' [''/p/BepInEx/plugins/Foo/Foo.dll''] []) = getName exampleMod"
    by code_simp
  have h8: "''foo'' \<noteq> getName exampleMod" by code_simp
  note t1 = name_matching_case_sensitivity[where a = "''Config''" and b = "''CONFIG''"
      and r = "rule exampleInstaller" and k = "''config''" and dst = "''BepInEx/config''"
      and ?m1.0 = exampleLoader and ?m2.0 = "\<lparr>getName = ''BepInExPack''\<rparr>" and ctx = exampleInstaller
      and v = "\<lparr>packageName = ''BepInExPack'', rootFolder = ''BepInExPack''\<rparr>"
      and ?f1.0 = "''/p/x/A.DLL''" and ?f2.0 = "''/p/x/a.dll''" and mode = DISABLED
      and d = "FileTree ''plugins'' [] []" and md = exampleMod and n = "''BepInEx''" and fs = "[]"
      and profile = exampleProfile and location = "''/p/BepInEx''" and w = exampleWorld
      and folder = "''foo''" and dir = "''/p/BepInEx/plugins''" and rest = "[''Foo'']"]
  note t2 = name_matching_case_sensitivity[where d = "FileTree ''Foo'' [''/p/BepInEx/plugins/Foo/Foo.dll''] []"
      and md = exampleMod and ctx = exampleInstaller and n = "''plugins''" and fs = "[]"
      and profile = exampleProfile and location = "''/p/BepInEx/plugins''" and w = exampleWorld
      and mode = DISABLED]
  from t1 t2 h1 h2 h3 h4 h5 h6 h7 h8 show ?thesis by blast
qed

text \<open>
  The claim as it is stated fails for the directory of the mod. With the mod installed in
  \<open>BepInEx/plugins/Foo\<close>, disabling the mod \<open>foo\<close> renames nothing, where disabling \<open>Foo\<close>
  renames \<open>Foo.dll\<close>; and uninstalling \<open>foo\<close> succeeds and leaves the store as it was, where
  uninstalling \<open>Foo\<close> removes the directory.
\<close>

theorem name_matching_case_sensitivity_counterexample:
  "toLowerCase (getDirectoryName (FileTree ''Foo'' [''/p/BepInEx/plugins/Foo/Foo.dll''] []))
      = toLowerCase (getName exampleLowerMod)
   \<and> applyModMode exampleInstaller exampleLowerMod exampleInstalledTree exampleProfile ''/p/BepInEx''
        DISABLED exampleWorld = (None, exampleWorld)
   \<and> calls (snd (applyModMode exampleInstaller exampleMod exampleInstalledTree exampleProfile
        ''/p/BepInEx'' DISABLED exampleWorld))
      = [(Rename ''/p/BepInEx/plugins/Foo/Foo.dll'' ''/p/BepInEx/plugins/Foo/Foo.dll.old'', True)]
   \<and> fst (uninstallMod exampleInstaller exampleLowerMod exampleProfile exampleWorld) = None
   \<and> store (snd (uninstallMod exampleInstaller exampleLowerMod exampleProfile exampleWorld))
      = store exampleWorld
   \<and> map_of (store (snd (uninstallMod exampleInstaller exampleMod exampleProfile exampleWorld)))
        ''/p/BepInEx/plugins/Foo'' = None"
  by code_simp

end
